theory Spec2Isabelle
  imports Complex_Main
begin

section \<open>Common data: log levels, errors, effects\<close>

text \<open>
  The levels of \<^verbatim>\<open>consts.LOG_*\<close> that \<^verbatim>\<open>lib/unity_cache_server.js\<close> names, and
  \<open>LOG_LEVEL n\<close> for any other level. Their numeric values live in
  \<^verbatim>\<open>lib/constants.js\<close>; only their identity matters here.
\<close>

datatype log_level = LOG_ERR | LOG_INFO | LOG_DBG | LOG_LEVEL nat

text \<open>
  Every \<^verbatim>\<open>throw\<close> and every rejected promise is a value. \<open>Error msg\<close> is the
  \<^verbatim>\<open>new Error(msg)\<close> raised by the file itself; the other constructors are
  failures of the collaborators it calls (the configuration view, the module resolver, the
  backend's \<^verbatim>\<open>init\<close> and \<^verbatim>\<open>cleanup\<close>, the address parser, the file system).
\<close>

datatype error =
    Error string
  | ConfigUndefined string
  | ModuleNotFound string
  | InitRejected
  | AddressInvalid string
  | FsError string
  | CleanupRejected

section \<open>saveConfig\<close>

text \<open>
  The argument of \<^verbatim>\<open>saveConfig\<close> as JavaScript passes it: a string, or anything else
  (the command-line parser passes \<^verbatim>\<open>true\<close> for a flag given without a value).
\<close>

datatype js_arg = JsString string | JsOther

datatype fs_node = File string | Dir

record disk =
  nodes :: "string \<rightharpoonup> fs_node"
  logged :: "(log_level \<times> string) list"

definition log_to :: "log_level \<Rightarrow> string \<Rightarrow> disk \<Rightarrow> disk" where
  "log_to lvl msg d = d\<lparr>logged := logged d @ [(lvl, msg)]\<rparr>"

text \<open>\<^verbatim>\<open>fs.pathExistsSync\<close>: true for a file and for a directory.\<close>

definition pathExistsSync :: "disk \<Rightarrow> string \<Rightarrow> bool" where
  "pathExistsSync d p = (nodes d p \<noteq> None)"

text \<open>\<^verbatim>\<open>fs.ensureDirSync\<close>: creates the directory, and throws when a file is in the way.\<close>

definition ensureDirSync :: "string \<Rightarrow> disk \<Rightarrow> error + disk" where
  "ensureDirSync p d =
     (case nodes d p of
        Some (File _) \<Rightarrow> Inl (FsError p)
      | _ \<Rightarrow> Inr (d\<lparr>nodes := (nodes d)(p \<mapsto> Dir)\<rparr>))"

text \<open>\<^verbatim>\<open>fs.writeFileSync\<close>: replaces a file's contents, and throws on a directory.\<close>

definition writeFileSync :: "string \<Rightarrow> string \<Rightarrow> disk \<Rightarrow> error + disk" where
  "writeFileSync p dat d =
     (case nodes d p of
        Some Dir \<Rightarrow> Inl (FsError p)
      | _ \<Rightarrow> Inr (d\<lparr>nodes := (nodes d)(p \<mapsto> File dat)\<rparr>))"

text \<open>
  The first statement of \<^verbatim>\<open>saveConfig\<close>: the path it works on is the resolved argument
  when the argument is a string, and the default name otherwise. \<open>resolve\<close> is
  \<^verbatim>\<open>path.resolve\<close>.
\<close>

definition target_of :: "(string \<Rightarrow> string) \<Rightarrow> js_arg \<Rightarrow> string" where
  "target_of resolve arg = (case arg of JsString s \<Rightarrow> resolve s | JsOther \<Rightarrow> ''default.yml'')"

text \<open>
  \<^verbatim>\<open>saveConfig(configFile)\<close>. \<open>dirname\<close> is \<^verbatim>\<open>path.dirname\<close>; \<open>configData\<close> is
  \<^verbatim>\<open>yaml.safeDump(require('config'))\<close>. The result pairs what the call returns or throws
  with the disk and the log it leaves.
\<close>

definition saveConfig ::
  "(string \<Rightarrow> string) \<Rightarrow> (string \<Rightarrow> string) \<Rightarrow> string \<Rightarrow> js_arg \<Rightarrow> disk
     \<Rightarrow> (error + unit) \<times> disk" where
  "saveConfig resolve dirname configData arg d =
     (let configFile = target_of resolve arg
      in if pathExistsSync d configFile then
           (let msg = configFile @ '' already exists - will not overwrite.''
            in (Inl (Error msg), log_to LOG_ERR msg d))
         else
           (case ensureDirSync (dirname configFile) d of
              Inl e \<Rightarrow> (Inl e, d)
            | Inr d1 \<Rightarrow>
                (case writeFileSync configFile configData d1 of
                   Inl e \<Rightarrow> (Inl e, d1)
                 | Inr d2 \<Rightarrow>
                     (Inr (), log_to LOG_INFO (''config saved to '' @ configFile) d2))))"

section \<open>The configuration view and the collaborators\<close>

record MirrorTarget =
  host :: string
  port :: int

text \<open>
  The static \<^verbatim>\<open>properties\<close> of a cache module: its capability flags
  (\<^verbatim>\<open>properties.clustering\<close>, \<^verbatim>\<open>properties.cleanup\<close>).
\<close>

record properties =
  prop_clustering :: bool
  prop_cleanup :: bool

text \<open>
  A backend object made by \<^verbatim>\<open>new CacheModule()\<close>: \<open>ident\<close> is the object's identity
  (the number of objects constructed before it), \<open>of_module\<close> the module it is an instance
  of, \<open>props\<close> what \<^verbatim>\<open>cache.constructor.properties\<close> reads.
\<close>

record backend =
  ident :: nat
  of_module :: string
  props :: properties

type_synonym opts = "string \<rightharpoonup> string"

text \<open>
  What the file reads from outside itself. The \<open>cfg_\<close> fields are the configuration
  values under the keys of \<^verbatim>\<open>consts.CLI_CONFIG_KEYS\<close> (\<open>None\<close>: the key is not
  defined, so \<^verbatim>\<open>config.has\<close> is false and \<^verbatim>\<open>config.get\<close> throws);
  \<open>cfg_module_cache_path\<close> is the key \<^verbatim>\<open>Cache.options.<module>.cachePath\<close>. The others
  are the collaborators: \<^verbatim>\<open>helpers.resolveCacheModule\<close> (\<open>None\<close>: it throws), whether
  the backend's \<^verbatim>\<open>init\<close> fulfils, \<^verbatim>\<open>helpers.parseAndValidateAddressString\<close> (\<open>Inl\<close>:
  it rejects, with a reason), \<^verbatim>\<open>ip.isEqual\<close>, \<^verbatim>\<open>ip.address()\<close>,
  \<^verbatim>\<open>consts.DEFAULT_PORT\<close>, the order in which the mirror promises settle (indices into
  the mirror list), \<^verbatim>\<open>version\<close> of \<^verbatim>\<open>package.json\<close>, \<^verbatim>\<open>cluster.isMaster\<close>
  (\<^verbatim>\<open>cluster.isWorker\<close> is its negation), the error with which \<^verbatim>\<open>server.start\<close> calls
  its error handler if it does, how an integer and a fraction print in a template string,
  the \<^verbatim>\<open>filesize\<close> package, and \<^verbatim>\<open>helpers.getLogLevel()\<close>.
\<close>

record env =
  cfg_cache_module :: "string option"
  cfg_cache_path :: "string option"
  cfg_module_cache_path :: "string \<Rightarrow> string option"
  cfg_workers :: "int option"
  cfg_port :: "int option"
  cfg_mirror :: "string list option"
  cfg_allow_ipv6 :: "bool option"
  resolveCacheModule :: "string \<Rightarrow> properties option"
  init_fulfils :: "backend \<Rightarrow> opts \<Rightarrow> bool"
  parseAndValidateAddressString :: "string \<Rightarrow> int \<Rightarrow> string + MirrorTarget"
  isEqual :: "string \<Rightarrow> string \<Rightarrow> bool"
  ip_address :: string
  DEFAULT_PORT :: int
  settle_order :: "nat list"
  version :: string
  isMaster :: bool
  server_start_error :: "string option"
  number_text :: "int \<Rightarrow> string"
  ratio_text :: "rat \<Rightarrow> string"
  filesize :: "nat \<Rightarrow> string"
  getLogLevel :: log_level

text \<open>\<^verbatim>\<open>config.get(key)\<close>: throws on a key that is not defined.\<close>

definition config_get :: "string \<Rightarrow> 'a option \<Rightarrow> error + 'a" where
  "config_get key v = (case v of None \<Rightarrow> Inl (ConfigUndefined key) | Some x \<Rightarrow> Inr x)"

text \<open>The local \<^verbatim>\<open>getConfigVal(key, defVal)\<close> of \<^verbatim>\<open>start\<close>.\<close>

definition getConfigVal :: "'a option \<Rightarrow> 'a \<Rightarrow> 'a" where
  "getConfigVal v defVal = (case v of Some x \<Rightarrow> x | None \<Rightarrow> defVal)"

section \<open>getMirrors\<close>

text \<open>The test of line 41: the candidate is this node.\<close>

definition is_self :: "env \<Rightarrow> int \<Rightarrow> MirrorTarget \<Rightarrow> bool" where
  "is_self env myPort result =
     ((isEqual env (ip_address env) (host result) \<or> isEqual env ''127.0.0.1'' (host result))
      \<and> myPort = port result)"

text \<open>The body of the \<^verbatim>\<open>async m => ...\<close> mapped over the mirror list: one candidate.\<close>

definition validate_mirror :: "env \<Rightarrow> int \<Rightarrow> string \<Rightarrow> error + MirrorTarget" where
  "validate_mirror env myPort m =
     (case parseAndValidateAddressString env m (DEFAULT_PORT env) of
        Inl reason \<Rightarrow> Inl (AddressInvalid reason)
      | Inr result \<Rightarrow>
          if is_self env myPort result then Inl (Error ''Cannot mirror to self!'')
          else Inr result)"

text \<open>
  \<^verbatim>\<open>Promise.all\<close>: fulfils with every value, in the order of the input, when no promise
  rejects; otherwise rejects with the reason of the promise that rejects first. \<open>order\<close>
  lists indices in the order their promises settle; an index it leaves out settles after
  those it lists, in index order.
\<close>

definition rejection_at :: "(error + 'a) list \<Rightarrow> nat \<Rightarrow> error list" where
  "rejection_at ps i =
     (if i < length ps then (case ps ! i of Inl e \<Rightarrow> [e] | Inr _ \<Rightarrow> []) else [])"

definition rejections :: "nat list \<Rightarrow> (error + 'a) list \<Rightarrow> error list" where
  "rejections order ps = concat (map (rejection_at ps) (order @ [0..<length ps]))"

definition fulfilments :: "(error + 'a) list \<Rightarrow> 'a list" where
  "fulfilments ps = concat (map (\<lambda>p. case p of Inl _ \<Rightarrow> [] | Inr x \<Rightarrow> [x]) ps)"

definition Promise_all :: "nat list \<Rightarrow> (error + 'a) list \<Rightarrow> error + 'a list" where
  "Promise_all order ps =
     (case rejections order ps of e # _ \<Rightarrow> Inl e | [] \<Rightarrow> Inr (fulfilments ps))"

definition getMirrors :: "env \<Rightarrow> error + MirrorTarget list" where
  "getMirrors env =
     (case config_get ''CLI_CONFIG_KEYS.MIRROR'' (cfg_mirror env) of
        Inl e \<Rightarrow> Inl e
      | Inr mirror \<Rightarrow>
          (case config_get ''CLI_CONFIG_KEYS.PORT'' (cfg_port env) of
             Inl e \<Rightarrow> Inl e
           | Inr myPort \<Rightarrow>
               Promise_all (settle_order env) (map (validate_mirror env myPort) mirror)))"

section \<open>initCache\<close>

text \<open>
  The two static fields \<^verbatim>\<open>_cache_instance\<close> and \<^verbatim>\<open>_cache_module_name\<close> that
  \<^verbatim>\<open>initCache\<close> keeps on \<^verbatim>\<open>this.constructor\<close>, with a record of the objects it has
  constructed and of the calls of \<^verbatim>\<open>init\<close> it has made.
\<close>

record store =
  cache_instance :: "backend option"
  cache_module_name :: "string option"
  constructed :: nat
  init_calls :: "(backend \<times> opts) list"

definition initCache :: "env \<Rightarrow> opts \<Rightarrow> store \<Rightarrow> (error + backend) \<times> store" where
  "initCache env opts s =
     (case cache_instance s of
        Some inst \<Rightarrow> (Inr inst, s)
      | None \<Rightarrow>
          (case config_get ''CLI_CONFIG_KEYS.CACHE_MODULE'' (cfg_cache_module env) of
             Inl e \<Rightarrow> (Inl e, s)
           | Inr cacheModuleName \<Rightarrow>
               (case resolveCacheModule env cacheModuleName of
                  None \<Rightarrow> (Inl (ModuleNotFound cacheModuleName), s)
                | Some CacheModule \<Rightarrow>
                    (case (case cfg_cache_path env of
                             Some p \<Rightarrow> Inr p
                           | None \<Rightarrow> config_get (''Cache.options.'' @ cacheModuleName @ ''.cachePath'')
                                       (cfg_module_cache_path env cacheModuleName)) of
                       Inl e \<Rightarrow> (Inl e, s)
                     | Inr cachePath \<Rightarrow>
                         (let myOpts = opts(''cachePath'' \<mapsto> cachePath);
                              inst = \<lparr>ident = constructed s, of_module = cacheModuleName,
                                      props = CacheModule\<rparr>;
                              s1 = s\<lparr>cache_instance := Some inst,
                                     cache_module_name := Some cacheModuleName,
                                     constructed := Suc (constructed s),
                                     init_calls := init_calls s @ [(inst, myOpts)]\<rparr>
                          in if init_fulfils env inst myOpts then (Inr inst, s1)
                             else (Inl InitRejected, s1))))))"

section \<open>Observable effects\<close>

datatype signal = SIGINT | SIGTERM

text \<open>
  What \<^verbatim>\<open>start\<close>, the signal handlers and \<^verbatim>\<open>cleanup\<close> do to the outside, in the order
  they do it. \<open>SetLogger clustered\<close> is \<^verbatim>\<open>helpers.setLogger\<close>; \<open>NewServer\<close> carries
  the \<^verbatim>\<open>serverOpts\<close>; \<open>Once\<close> and \<open>On\<close> are \<^verbatim>\<open>process.once\<close> and
  \<^verbatim>\<open>process.on\<close>; \<open>Subscribe\<close> is \<^verbatim>\<open>cache.on\<close>; the number in the four shutdown
  actions names the handler invocation that performs them; \<open>Sleep ms\<close> is one
  \<^verbatim>\<open>setTimeout(resolve, ms)\<close>; \<open>Exit\<close> is \<^verbatim>\<open>process.exit\<close>; \<open>Resolved\<close> and
  \<open>Rejected\<close> end an \<^verbatim>\<open>async\<close> function; \<open>Unhandled k\<close> is handler \<open>k\<close> ending in
  a rejection nobody catches.
\<close>

datatype action =
    Log log_level string
  | SetLogger bool
  | NewServer int "MirrorTarget list" bool
  | Once signal
  | On signal
  | Fork
  | ServerStart
  | CacheShutdownCalled nat
  | CacheShutdownDone nat
  | ServerStopCalled nat
  | ServerStopDone nat
  | Unhandled nat
  | Subscribe string
  | SpinnerStart string
  | SpinnerText string
  | SpinnerStop
  | CacheCleanup bool
  | Sleep int
  | Exit nat
  | Resolved
  | Rejected error

section \<open>start\<close>

text \<open>The name that \<^verbatim>\<open>${this.constructor._cache_module_name}\<close> prints.\<close>

definition module_text :: "store \<Rightarrow> string" where
  "module_text s = (case cache_module_name s of Some n \<Rightarrow> n | None \<Rightarrow> ''undefined'')"

text \<open>Lines 162 to 166: the number of workers, and the downgrade it logs.\<close>

definition plan_workers :: "env \<Rightarrow> store \<Rightarrow> backend \<Rightarrow> int \<times> action list" where
  "plan_workers env s cache =
     (let workers = getConfigVal (cfg_workers env) 0
      in if workers > 0 \<and> \<not> prop_clustering (props cache)
         then (0, [Log LOG_INFO (''Clustering disabled, current cache module '' @ module_text s
                                  @ '' does not support it.'')])
         else (workers, []))"

text \<open>The loop \<^verbatim>\<open>for(let i = 0; i < workers; i++) cluster.fork()\<close>.\<close>

function fork_loop :: "int \<Rightarrow> int \<Rightarrow> action list" where
  "fork_loop i workers = (if i < workers then Fork # fork_loop (i + 1) workers else [])"
  by pat_completeness auto
termination
  by (relation "measure (\<lambda>(i, workers). nat (workers - i))") auto

declare fork_loop.simps [simp del]

text \<open>
  \<^verbatim>\<open>start()\<close>, up to the point where its promise settles or the process exits. The
  handlers that \<open>Once\<close> registers run later, on a signal: see \<open>step\<close>.
\<close>

definition start :: "env \<Rightarrow> store \<Rightarrow> action list \<times> store" where
  "start env s =
     (case initCache env Map.empty s of
        (Inl e, s1) \<Rightarrow> ([Rejected e], s1)
      | (Inr cache, s1) \<Rightarrow>
          (case plan_workers env s1 cache of
             (workers, downgrade) \<Rightarrow>
               (case getMirrors env of
                  Inl e \<Rightarrow> (downgrade @ [SetLogger (workers > 0), Rejected e], s1)
                | Inr mirror \<Rightarrow>
                    (downgrade
                     @ [SetLogger (workers > 0),
                        NewServer (getConfigVal (cfg_port env) (DEFAULT_PORT env)) mirror
                                  (getConfigVal (cfg_allow_ipv6 env) False),
                        Once SIGINT, Once SIGTERM]
                     @ (if isMaster env
                        then Log LOG_INFO (''Cache Server version '' @ version env
                                           @ ''; Cache module is '' @ module_text s1)
                             # fork_loop 0 workers
                        else [])
                     @ (if \<not> isMaster env \<or> workers = 0
                        then ServerStart
                             # (case server_start_error env of
                                  Some msg \<Rightarrow> [Log LOG_ERR msg, Exit 1]
                                | None \<Rightarrow>
                                    [Log LOG_INFO
                                       (''Cache Server ready on port ''
                                        @ number_text env
                                            (getConfigVal (cfg_port env) (DEFAULT_PORT env))),
                                     Resolved])
                        else [Resolved]),
                     s1))))"

section \<open>The signal handlers of start\<close>

text \<open>
  Where an invocation of the handler
  \<^verbatim>\<open>async () => { log; await cache.shutdown(); await server.stop(); process.exit(); }\<close>
  is suspended.
\<close>

datatype stage = AwaitCacheShutdown | AwaitServerStop

datatype status = Running | Exited nat | Killed signal

text \<open>
  The process after \<^verbatim>\<open>start\<close>: the signals that still have their \<^verbatim>\<open>once\<close> listener,
  the suspended handler invocations, how many invocations there have been, what has been
  done so far, and whether the process is still there.
\<close>

record proc =
  once :: "signal list"
  awaiting :: "(nat \<times> stage) list"
  invoked :: nat
  trace :: "action list"
  status :: status

text \<open>Lines 180 to 187 have run: one \<^verbatim>\<open>once\<close> listener for each of the two signals.\<close>

definition started :: proc where
  "started = \<lparr>once = [SIGINT, SIGTERM], awaiting = [], invoked = 0, trace = [],
              status = Running\<rparr>"

text \<open>
  What the event loop can hand to the process: a signal, or the settling of the promise
  that handler invocation \<open>k\<close> awaits (\<open>True\<close>: fulfilled, \<open>False\<close>: rejected).
\<close>

datatype event = Deliver signal | Settle nat bool

text \<open>
  One event. A \<^verbatim>\<open>once\<close> listener is removed when its signal arrives and the handler
  runs up to its first \<^verbatim>\<open>await\<close>; a signal that has no listener left has the default
  action of the platform, which ends the process. \<^verbatim>\<open>process.exit()\<close> without an
  argument exits with status 0. Nothing runs in a process that is gone.
\<close>

definition step :: "event \<Rightarrow> proc \<Rightarrow> proc" where
  "step ev p =
     (if status p \<noteq> Running then p
      else case ev of
        Deliver sig \<Rightarrow>
          if sig \<in> set (once p)
          then p\<lparr>once := removeAll sig (once p),
                 awaiting := awaiting p @ [(invoked p, AwaitCacheShutdown)],
                 invoked := Suc (invoked p),
                 trace := trace p @ [Log LOG_INFO ''Shutting down...'',
                                     CacheShutdownCalled (invoked p)]\<rparr>
          else p\<lparr>status := Killed sig\<rparr>
      | Settle k ok \<Rightarrow>
          (case map_of (awaiting p) k of
             None \<Rightarrow> p
           | Some AwaitCacheShutdown \<Rightarrow>
               if ok
               then p\<lparr>awaiting := (k, AwaitServerStop) # filter (\<lambda>h. fst h \<noteq> k) (awaiting p),
                      trace := trace p @ [CacheShutdownDone k, ServerStopCalled k]\<rparr>
               else p\<lparr>awaiting := filter (\<lambda>h. fst h \<noteq> k) (awaiting p),
                      trace := trace p @ [Unhandled k]\<rparr>
           | Some AwaitServerStop \<Rightarrow>
               if ok
               then p\<lparr>awaiting := filter (\<lambda>h. fst h \<noteq> k) (awaiting p),
                      trace := trace p @ [ServerStopDone k, Exit 0],
                      status := Exited 0\<rparr>
               else p\<lparr>awaiting := filter (\<lambda>h. fst h \<noteq> k) (awaiting p),
                      trace := trace p @ [Unhandled k]\<rparr>))"

fun run :: "event list \<Rightarrow> proc \<Rightarrow> proc" where
  "run [] p = p"
| "run (ev # evs) p = run evs (step ev p)"

section \<open>cleanup\<close>

record CleanupReport =
  cacheCount :: nat
  deleteCount :: nat
  cacheSize :: nat
  deleteSize :: nat

record SearchProgress =
  msg :: string
  found_deleteCount :: nat
  found_cacheCount :: nat
  found_deleteSize :: nat

text \<open>The four events of the backend that \<^verbatim>\<open>cleanup\<close> subscribes to.\<close>

datatype cache_event =
    cleanup_delete_item string
  | cleanup_delete_finish CleanupReport
  | cleanup_search_progress SearchProgress
  | cleanup_search_finish

text \<open>
  The numbers of line 242 are IEEE doubles. A non-negative finite double is kept here as
  a fraction, numerator and denominator, whose value it is; the byte counts of a report are
  integers below \<open>2 ^ 53\<close>, which doubles hold exactly.
\<close>

type_synonym double = "nat \<times> nat"

definition double_value :: "double \<Rightarrow> rat" where
  "double_value x = of_nat (fst x) / of_nat (snd x)"

text \<open>The integer nearest to \<open>a / b\<close>, a tie going to the even one.\<close>

definition round_half_even :: "nat \<Rightarrow> nat \<Rightarrow> nat" where
  "round_half_even a b =
     (let q = a div b; r = a mod b
      in if 2 * r < b then q
         else if b < 2 * r then q + 1
         else if even q then q else q + 1)"

text \<open>
  The double nearest to the fraction \<open>a / b\<close>, as every correctly rounded operation of
  IEEE arithmetic returns it (round to nearest, ties to even): the fraction is scaled by
  twos until it lies in \<open>[2 ^ 52, 2 ^ 53)\<close>, rounded to an integer there, which is the
  53-bit significand, and scaled back. Overflow and subnormal numbers are left out: the
  quotients, decimals and percentages of line 242 are far from both.
\<close>

function round_to_double :: "nat \<Rightarrow> nat \<Rightarrow> double" where
  "round_to_double a b =
     (if a = 0 \<or> b = 0 then (0, 1)
      else if a < 4503599627370496 * b
        then (case round_to_double (2 * a) b of (n, d) \<Rightarrow> (n, 2 * d))
      else if 9007199254740992 * b \<le> a
        then (case round_to_double a (2 * b) of (n, d) \<Rightarrow> (2 * n, d))
      else (round_half_even a b, 1))"
  by pat_completeness auto
termination
  by (relation "measure (\<lambda>(a, b). (4503599627370496 * b - a)
                                   + (a + 1 - 9007199254740992 * b))") auto

declare round_to_double.simps [simp del]

text \<open>
  The decimal that \<^verbatim>\<open>x.toPrecision(2)\<close> writes for the double \<open>x = a / b\<close>, as a
  fraction: \<open>x\<close> rounded to two significant decimal digits, a tie going to the larger
  value. The fraction is scaled by tens until it lies in \<open>[10, 100)\<close>, rounded to an
  integer there, and scaled back.
\<close>

function toPrecision2 :: "nat \<Rightarrow> nat \<Rightarrow> nat \<times> nat" where
  "toPrecision2 a b =
     (if a = 0 \<or> b = 0 then (0, 1)
      else if a < 10 * b
        then (case toPrecision2 (10 * a) b of (n, d) \<Rightarrow> (n, 10 * d))
      else if 100 * b \<le> a
        then (case toPrecision2 a (10 * b) of (n, d) \<Rightarrow> (10 * n, d))
      else ((2 * a + b) div (2 * b), 1))"
  by pat_completeness auto
termination
  by (relation "measure (\<lambda>(a, b). (10 * b - a) + (a + 1 - 100 * b))") auto

declare toPrecision2.simps [simp del]

text \<open>
  The \<^verbatim>\<open>pct\<close> of the \<^verbatim>\<open>cleanup_delete_finish\<close> handler (line 242), step by step: the
  quotient of the two byte counts, a double; the two-digit decimal \<^verbatim>\<open>toPrecision(2)\<close>
  writes for it; the double that the string converts to when it is multiplied; and the
  product of that double and 100, a double again.
\<close>

definition size_quotient :: "CleanupReport \<Rightarrow> double" where
  "size_quotient data = round_to_double (deleteSize data) (cacheSize data)"

definition precise :: "CleanupReport \<Rightarrow> nat \<times> nat" where
  "precise data = toPrecision2 (fst (size_quotient data)) (snd (size_quotient data))"

definition precise_number :: "CleanupReport \<Rightarrow> double" where
  "precise_number data = round_to_double (fst (precise data)) (snd (precise data))"

definition pct :: "CleanupReport \<Rightarrow> rat" where
  "pct data =
     (if cacheSize data > 0
      then double_value
             (round_to_double (100 * fst (precise_number data)) (snd (precise_number data)))
      else 0)"

text \<open>
  The spinner is \<^verbatim>\<open>ora\<close> at log level \<^verbatim>\<open>LOG_INFO\<close> and a \<^verbatim>\<open>FakeSpinner\<close>, which logs
  its text at debug level, otherwise.
\<close>

datatype spinner = Ora | FakeSpinner

definition spinner_text :: "spinner \<Rightarrow> string \<Rightarrow> action list" where
  "spinner_text sp m = (case sp of Ora \<Rightarrow> [SpinnerText m] | FakeSpinner \<Rightarrow> [Log LOG_DBG m])"

definition spinner_start :: "spinner \<Rightarrow> string \<Rightarrow> action list" where
  "spinner_start sp m = (case sp of Ora \<Rightarrow> [SpinnerStart m] | FakeSpinner \<Rightarrow> [Log LOG_DBG m])"

definition spinner_stop :: "spinner \<Rightarrow> action list" where
  "spinner_stop sp = (case sp of Ora \<Rightarrow> [SpinnerStop] | FakeSpinner \<Rightarrow> [])"

text \<open>The four listeners of lines 237 to 252.\<close>

definition on_event :: "env \<Rightarrow> spinner \<Rightarrow> cache_event \<Rightarrow> action list" where
  "on_event env sp ev =
     (case ev of
        cleanup_delete_item item \<Rightarrow> [Log LOG_DBG item]
      | cleanup_delete_finish data \<Rightarrow>
          [Log LOG_INFO
             (''Found '' @ number_text env (int (deleteCount data)) @ '' expired files of ''
              @ number_text env (int (cacheCount data)) @ ''. '' @ filesize env (deleteSize data)
              @ '' of '' @ filesize env (cacheSize data) @ '' ('' @ ratio_text env (pct data)
              @ ''%).'')]
      | cleanup_search_progress data \<Rightarrow>
          spinner_text sp
            (msg data @ '' ('' @ number_text env (int (found_deleteCount data)) @ '' of ''
             @ number_text env (int (found_cacheCount data)) @ '' files, ''
             @ filesize env (found_deleteSize data) @ '')'')
      | cleanup_search_finish \<Rightarrow> spinner_stop sp)"

text \<open>
  How one \<^verbatim>\<open>await\<close> of \<^verbatim>\<open>cleanup\<close> ends: whether a termination signal was delivered
  while it was pending; for the \<^verbatim>\<open>await\<close> of \<^verbatim>\<open>cache.cleanup\<close>, whether that promise
  rejects and which events the backend emitted meanwhile (a timer promise does neither).
  A list of these is the future of the process, one entry for each \<^verbatim>\<open>await\<close> that
  completes; when the list runs out, the process is left waiting at its next
  \<^verbatim>\<open>await\<close>.
\<close>

datatype tick = Tick (signalled: bool) (rejects: bool) (emitted: "cache_event list")

text \<open>\<^verbatim>\<open>doCleanup\<close> up to its \<^verbatim>\<open>await\<close>, and after it.\<close>

definition doCleanup_begin :: "spinner \<Rightarrow> bool \<Rightarrow> action list" where
  "doCleanup_begin sp dryRun =
     spinner_start sp ''Gathering cache files for expiration'' @ [CacheCleanup dryRun]"

definition doCleanup_end :: "bool \<Rightarrow> action list" where
  "doCleanup_end dryRun =
     (if dryRun
      then [Log LOG_INFO
              ''Nothing deleted; run with --delete to remove expired files from the cache.'']
      else [])"

text \<open>\<^verbatim>\<open>return doCleanup()\<close>: the single pass of the mode without a daemon.\<close>

definition doCleanup :: "env \<Rightarrow> spinner \<Rightarrow> bool \<Rightarrow> tick list \<Rightarrow> action list" where
  "doCleanup env sp dryRun sched =
     doCleanup_begin sp dryRun
     @ (case sched of
          [] \<Rightarrow> []
        | t # _ \<Rightarrow>
            concat (map (on_event env sp) (emitted t))
            @ (if rejects t then [Rejected CleanupRejected]
               else doCleanup_end dryRun @ [Resolved]))"

text \<open>
  The two loops of \<^verbatim>\<open>doCleanupInterval\<close>: \<open>while_loop\<close> is at the test of
  \<^verbatim>\<open>while(!finished)\<close>, \<open>for_loop\<close> at the test of \<^verbatim>\<open>i < daemon\<close>. The signal
  listeners set \<open>finished\<close>, and can run only while an \<^verbatim>\<open>await\<close> is pending. A
  \<^verbatim>\<open>break\<close> leaves for the test of the outer loop.
\<close>

fun while_loop :: "env \<Rightarrow> spinner \<Rightarrow> bool \<Rightarrow> int \<Rightarrow> int \<Rightarrow> bool \<Rightarrow> tick list \<Rightarrow> action list"
and for_loop :: "env \<Rightarrow> spinner \<Rightarrow> bool \<Rightarrow> int \<Rightarrow> int \<Rightarrow> int \<Rightarrow> bool \<Rightarrow> tick list \<Rightarrow> action list"
where
  "while_loop env sp dryRun daemon interval finished sched =
     (if finished then [Resolved]
      else doCleanup_begin sp dryRun
           @ (case sched of
                [] \<Rightarrow> []
              | t # rest \<Rightarrow>
                  concat (map (on_event env sp) (emitted t))
                  @ (if rejects t then [Rejected CleanupRejected]
                     else doCleanup_end dryRun
                          @ for_loop env sp dryRun daemon interval 0
                              (finished \<or> signalled t) rest)))"
| "for_loop env sp dryRun daemon interval i finished sched =
     (if i < daemon
      then Sleep interval
           # (case sched of
                [] \<Rightarrow> []
              | t # rest \<Rightarrow>
                  if finished \<or> signalled t
                  then while_loop env sp dryRun daemon interval True rest
                  else for_loop env sp dryRun daemon interval (i + interval) False rest)
      else while_loop env sp dryRun daemon interval finished sched)"

declare while_loop.simps [simp del] for_loop.simps [simp del]

definition doCleanupInterval :: "env \<Rightarrow> spinner \<Rightarrow> bool \<Rightarrow> int \<Rightarrow> tick list \<Rightarrow> action list" where
  "doCleanupInterval env sp dryRun daemon sched =
     [On SIGINT, On SIGTERM]
     @ while_loop env sp dryRun daemon (min 250 daemon) False sched"

text \<open>
  \<^verbatim>\<open>cleanup(dryRun, daemon)\<close>. \<^verbatim>\<open>process.exit(1)\<close> ends the process, so nothing after
  it runs.
\<close>

definition cleanup :: "env \<Rightarrow> bool \<Rightarrow> int \<Rightarrow> tick list \<Rightarrow> store \<Rightarrow> action list \<times> store" where
  "cleanup env dryRun daemon sched s =
     (case initCache env Map.empty s of
        (Inl e, s1) \<Rightarrow> ([Rejected e], s1)
      | (Inr cache, s1) \<Rightarrow>
          if \<not> prop_cleanup (props cache)
          then ([Log LOG_ERR ''Configured cache module does not support cleanup script.'',
                 Exit 1], s1)
          else
            (let sp = (if getLogLevel env = LOG_INFO then Ora else FakeSpinner)
             in ([Subscribe ''cleanup_delete_item'', Subscribe ''cleanup_delete_finish'',
                  Subscribe ''cleanup_search_progress'', Subscribe ''cleanup_search_finish'']
                 @ (if daemon = 0 then doCleanup env sp dryRun sched
                    else doCleanupInterval env sp dryRun daemon sched),
                 s1)))"

section \<open>A concrete node\<close>

text \<open>
  A node to run the definitions on: address 10.0.0.5, port 8126, two cache modules of which
  only \<open>cache_fs\<close> has the two capabilities, and an address parser that knows three peers.
\<close>

definition parse0 :: "string \<Rightarrow> int \<Rightarrow> string + MirrorTarget" where
  "parse0 m defaultPort =
     (if m = ''10.0.0.7'' then Inr \<lparr>host = ''10.0.0.7'', port = defaultPort\<rparr>
      else if m = ''10.0.0.5:9000'' then Inr \<lparr>host = ''10.0.0.5'', port = 9000\<rparr>
      else if m = ''localhost:8126'' then Inr \<lparr>host = ''127.0.0.1'', port = 8126\<rparr>
      else Inl ''ENOTFOUND'')"

definition env0 :: env where
  "env0 =
     \<lparr>cfg_cache_module = Some ''cache_fs'',
      cfg_cache_path = None,
      cfg_module_cache_path = (\<lambda>m. Some ''.cache''),
      cfg_workers = None,
      cfg_port = Some 8126,
      cfg_mirror = Some [''10.0.0.7'', ''10.0.0.5:9000''],
      cfg_allow_ipv6 = None,
      resolveCacheModule =
        (\<lambda>m. if m = ''cache_fs'' then Some \<lparr>prop_clustering = True, prop_cleanup = True\<rparr>
             else if m = ''cache_ram'' then Some \<lparr>prop_clustering = False, prop_cleanup = False\<rparr>
             else None),
      init_fulfils = (\<lambda>b opts. True),
      parseAndValidateAddressString = parse0,
      isEqual = (\<lambda>a b. a = b),
      ip_address = ''10.0.0.5'',
      DEFAULT_PORT = 8126,
      settle_order = [],
      version = ''6.0.0'',
      isMaster = True,
      server_start_error = None,
      number_text = (\<lambda>n. ''n''),
      ratio_text = (\<lambda>q. ''q''),
      filesize = (\<lambda>n. ''n B''),
      getLogLevel = LOG_INFO\<rparr>"

definition store0 :: store where
  "store0 = \<lparr>cache_instance = None, cache_module_name = None, constructed = 0,
             init_calls = []\<rparr>"

text \<open>The node of \<open>env0\<close> with a backend whose \<^verbatim>\<open>init\<close> rejects.\<close>

definition env_init_fails :: env where
  "env_init_fails = env0\<lparr>init_fulfils := (\<lambda>b opts. False)\<rparr>"

text \<open>The node of \<open>env0\<close> configured with the module that has neither capability.\<close>

definition env_ram :: env where
  "env_ram = env0\<lparr>cfg_cache_module := Some ''cache_ram''\<rparr>"

text \<open>The node of \<open>env0\<close>, and the one of \<open>env_ram\<close>, asked for three workers.\<close>

definition env_cluster :: env where
  "env_cluster = env0\<lparr>cfg_workers := Some 3\<rparr>"

definition env_ram_cluster :: env where
  "env_ram_cluster = env_ram\<lparr>cfg_workers := Some 3\<rparr>"

section \<open>Roles\<close>

text \<open>
  The role of a process, read off the two tests that end \<^verbatim>\<open>start\<close>: a worker process
  (\<^verbatim>\<open>cluster.isWorker\<close>) forks nothing and starts a server; the master process forks
  \<open>workers\<close> processes, and starts a server itself only when \<open>workers\<close> is 0.
\<close>

datatype role = Master | Worker | Standalone

definition role_of :: "env \<Rightarrow> int \<Rightarrow> role" where
  "role_of env workers =
     (if \<not> isMaster env then Worker else if workers = 0 then Standalone else Master)"

section \<open>Reading traces and reports\<close>

text \<open>The number of \<^verbatim>\<open>cluster.fork()\<close> calls in a run.\<close>

definition forks :: "action list \<Rightarrow> nat" where
  "forks tr = length (filter (\<lambda>a. a = Fork) tr)"

text \<open>
  A trace in which every call of the server's stop has, earlier in the trace, the
  completion of the backend shutdown awaited by the same handler invocation.
\<close>

definition stop_after_shutdown :: "action list \<Rightarrow> bool" where
  "stop_after_shutdown tr =
     (\<forall>i k. i < length tr \<and> tr ! i = ServerStopCalled k
            \<longrightarrow> (\<exists>j<i. tr ! j = CacheShutdownDone k))"

text \<open>The percentage as the specification words it.\<close>

definition spec_pct :: "CleanupReport \<Rightarrow> rat" where
  "spec_pct data =
     (if cacheSize data > 0
      then of_int (round (of_nat (deleteSize data) / of_nat (cacheSize data) * 100 :: rat))
      else 0)"

text \<open>
  Reading a trace of \<^verbatim>\<open>cleanup\<close>: the durations of its sleep slices in order, and the
  number of passes it starts (calls of the backend's \<^verbatim>\<open>cleanup\<close>).
\<close>

fun sleeps :: "action list \<Rightarrow> int list" where
  "sleeps [] = []"
| "sleeps (Sleep ms # tr) = ms # sleeps tr"
| "sleeps (_ # tr) = sleeps tr"

fun passes :: "action list \<Rightarrow> nat" where
  "passes [] = 0"
| "passes (CacheCleanup _ # tr) = Suc (passes tr)"
| "passes (_ # tr) = passes tr"

text \<open>
  What is left of a run once the cancellation flag is set: no pass is started, at most one
  sleep slice is taken, and the run ends by returning.
\<close>

definition winds_down :: "action list \<Rightarrow> bool" where
  "winds_down rest =
     (passes rest = 0 \<and> length (sleeps rest) \<le> 1 \<and> rest \<noteq> [] \<and> last rest = Resolved)"

section \<open>Concrete reports and futures\<close>

text \<open>
  Reports: a quarter of the cache expired, a thousandth of it, seven fortieths, a seventh,
  and an empty cache.
\<close>

definition report_quarter :: CleanupReport where
  "report_quarter = \<lparr>cacheCount = 40, deleteCount = 10, cacheSize = 1000, deleteSize = 250\<rparr>"

definition report_thousandth :: CleanupReport where
  "report_thousandth = \<lparr>cacheCount = 40, deleteCount = 1, cacheSize = 1000, deleteSize = 1\<rparr>"

definition report_seven_fortieths :: CleanupReport where
  "report_seven_fortieths = \<lparr>cacheCount = 4, deleteCount = 1, cacheSize = 40, deleteSize = 7\<rparr>"

definition report_seventh :: CleanupReport where
  "report_seventh = \<lparr>cacheCount = 7, deleteCount = 1, cacheSize = 7, deleteSize = 1\<rparr>"

definition report_empty :: CleanupReport where
  "report_empty = \<lparr>cacheCount = 0, deleteCount = 0, cacheSize = 0, deleteSize = 0\<rparr>"

text \<open>
  Two ways an \<^verbatim>\<open>await\<close> can end: with nothing happening meanwhile, and with a
  termination signal delivered meanwhile.
\<close>

definition quiet_tick :: tick where
  "quiet_tick = Tick False False []"

definition signal_tick :: tick where
  "signal_tick = Tick True False []"

section \<open>Properties of saveConfig\<close>

text \<open>
  Claim C10. If the target configuration file already exists, \<^verbatim>\<open>saveConfig\<close> throws an
  error, after logging its message at error level (and logging nothing else), and leaves
  every path of the disk, the existing file included, exactly as it was.
\<close>

theorem saveConfig_existing_untouched:
  assumes "nodes d (target_of resolve arg) \<noteq> None"
  shows "saveConfig resolve dirname configData arg d =
           (Inl (Error (target_of resolve arg @ '' already exists - will not overwrite.'')),
            d\<lparr>logged := logged d
                 @ [(LOG_ERR, target_of resolve arg @ '' already exists - will not overwrite.'')]\<rparr>)
         \<and> nodes (snd (saveConfig resolve dirname configData arg d)) = nodes d"
  using assms
  by (simp add: saveConfig_def pathExistsSync_def log_to_def Let_def)

theorem saveConfig_existing_untouched_witness:
  "nodes \<lparr>nodes = [''/etc/ucs.yml'' \<mapsto> File ''old''], logged = []\<rparr>
       (target_of (\<lambda>s. s) (JsString ''/etc/ucs.yml'')) \<noteq> None
   \<and> saveConfig (\<lambda>s. s) (\<lambda>s. ''/etc'') ''new'' (JsString ''/etc/ucs.yml'')
        \<lparr>nodes = [''/etc/ucs.yml'' \<mapsto> File ''old''], logged = []\<rparr>
      = (Inl (Error ''/etc/ucs.yml already exists - will not overwrite.''),
         \<lparr>nodes = [''/etc/ucs.yml'' \<mapsto> File ''old''],
          logged = [(LOG_ERR, ''/etc/ucs.yml already exists - will not overwrite.'')]\<rparr>)"
  using saveConfig_existing_untouched
          [of "\<lparr>nodes = [''/etc/ucs.yml'' \<mapsto> File ''old''], logged = []\<rparr>"
              "\<lambda>s. s" "JsString ''/etc/ucs.yml''" "\<lambda>s. ''/etc''" "''new''"]
  by (simp add: target_of_def)

section \<open>Properties of getMirrors\<close>
















lemma getMirrors_loopback_example:
  "getMirrors (env0\<lparr>cfg_mirror := Some [''10.0.0.7'', ''localhost:8126'']\<rparr>)
     = Inl (Error ''Cannot mirror to self!'')"
  by (simp add: getMirrors_def config_get_def env0_def parse0_def validate_mirror_def
        is_self_def Promise_all_def rejections_def rejection_at_def)

section \<open>Properties of initCache\<close>

lemma initCache_singleton_set: "cache_instance s = Some b \<Longrightarrow> initCache env opts s = (Inr b, s)"
  by (simp add: initCache_def)

lemma initCache_Inr_sets:
  "initCache env opts s = (Inr b, s1) \<Longrightarrow> cache_instance s1 = Some b"
  by (cases "cache_instance s")
     (auto simp: initCache_def config_get_def Let_def split: option.splits sum.splits if_splits)

text \<open>
  Claim C7. When a call of \<^verbatim>\<open>initCache\<close> has returned a backend, a second call, with any
  options and under any configuration, returns that same backend and leaves the store as it
  is: no object is constructed and \<^verbatim>\<open>init\<close> is not called again.
\<close>

theorem initCache_second_call_same_instance:
  assumes "initCache env opts s = (Inr b, s1)"
  shows "initCache env' opts' s1 = (Inr b, s1)"
  using initCache_Inr_sets [OF assms] by (rule initCache_singleton_set)

theorem initCache_second_call_same_instance_witness:
  "initCache env0 Map.empty store0
     = (Inr \<lparr>ident = 0, of_module = ''cache_fs'',
             props = \<lparr>prop_clustering = True, prop_cleanup = True\<rparr>\<rparr>,
        \<lparr>cache_instance = Some \<lparr>ident = 0, of_module = ''cache_fs'',
             props = \<lparr>prop_clustering = True, prop_cleanup = True\<rparr>\<rparr>,
         cache_module_name = Some ''cache_fs'', constructed = 1,
         init_calls = [(\<lparr>ident = 0, of_module = ''cache_fs'',
             props = \<lparr>prop_clustering = True, prop_cleanup = True\<rparr>\<rparr>, [''cachePath'' \<mapsto> ''.cache''])]\<rparr>)
   \<and> initCache env_ram [''cachePath'' \<mapsto> ''/tmp''] 
        \<lparr>cache_instance = Some \<lparr>ident = 0, of_module = ''cache_fs'',
             props = \<lparr>prop_clustering = True, prop_cleanup = True\<rparr>\<rparr>,
         cache_module_name = Some ''cache_fs'', constructed = 1,
         init_calls = [(\<lparr>ident = 0, of_module = ''cache_fs'',
             props = \<lparr>prop_clustering = True, prop_cleanup = True\<rparr>\<rparr>, [''cachePath'' \<mapsto> ''.cache''])]\<rparr>
     = (Inr \<lparr>ident = 0, of_module = ''cache_fs'',
             props = \<lparr>prop_clustering = True, prop_cleanup = True\<rparr>\<rparr>,
        \<lparr>cache_instance = Some \<lparr>ident = 0, of_module = ''cache_fs'',
             props = \<lparr>prop_clustering = True, prop_cleanup = True\<rparr>\<rparr>,
         cache_module_name = Some ''cache_fs'', constructed = 1,
         init_calls = [(\<lparr>ident = 0, of_module = ''cache_fs'',
             props = \<lparr>prop_clustering = True, prop_cleanup = True\<rparr>\<rparr>, [''cachePath'' \<mapsto> ''.cache''])]\<rparr>)"
proof -
  have first: "initCache env0 Map.empty store0
     = (Inr \<lparr>ident = 0, of_module = ''cache_fs'',
             props = \<lparr>prop_clustering = True, prop_cleanup = True\<rparr>\<rparr>,
        \<lparr>cache_instance = Some \<lparr>ident = 0, of_module = ''cache_fs'',
             props = \<lparr>prop_clustering = True, prop_cleanup = True\<rparr>\<rparr>,
         cache_module_name = Some ''cache_fs'', constructed = 1,
         init_calls = [(\<lparr>ident = 0, of_module = ''cache_fs'',
             props = \<lparr>prop_clustering = True, prop_cleanup = True\<rparr>\<rparr>, [''cachePath'' \<mapsto> ''.cache''])]\<rparr>)"
    by (simp add: initCache_def env0_def store0_def config_get_def Let_def)
  show ?thesis
    using first initCache_second_call_same_instance [OF first, of env_ram "[''cachePath'' \<mapsto> ''/tmp'']"]
    by simp
qed

lemma initCache_init_rejects:
  assumes "cache_instance s = None"
      and "cfg_cache_module env = Some name"
      and "resolveCacheModule env name = Some P"
      and "(case cfg_cache_path env of Some p \<Rightarrow> Some p
            | None \<Rightarrow> cfg_module_cache_path env name) = Some path"
      and "\<not> init_fulfils env \<lparr>ident = constructed s, of_module = name, props = P\<rparr>
                (opts(''cachePath'' \<mapsto> path))"
  shows "initCache env opts s
           = (Inl InitRejected,
              s\<lparr>cache_instance := Some \<lparr>ident = constructed s, of_module = name, props = P\<rparr>,
                cache_module_name := Some name,
                constructed := Suc (constructed s),
                init_calls := init_calls s
                  @ [(\<lparr>ident = constructed s, of_module = name, props = P\<rparr>,
                      opts(''cachePath'' \<mapsto> path))]\<rparr>)"
  using assms
  by (cases "cfg_cache_path env")
     (simp_all add: initCache_def config_get_def Let_def)

text \<open>
  Claim C2, as the code has it. Take a call of \<^verbatim>\<open>initCache\<close> that reaches \<^verbatim>\<open>init\<close> (no
  backend is stored yet, the configured module resolves, a cache path is configured) and
  whose \<^verbatim>\<open>init\<close> rejects. The call rejects with that error. The backend it constructed
  was stored before \<^verbatim>\<open>init\<close> was awaited and stays stored, one object has been
  constructed and \<^verbatim>\<open>init\<close> called once. A later call, with any options and under any
  configuration, returns that backend and leaves the store as it is: it constructs nothing
  and does not call \<^verbatim>\<open>init\<close> again.
\<close>

theorem initCache_failed_init_keeps_singleton:
  assumes "cache_instance s = None"
      and "cfg_cache_module env = Some name"
      and "resolveCacheModule env name = Some P"
      and "(case cfg_cache_path env of Some p \<Rightarrow> Some p
            | None \<Rightarrow> cfg_module_cache_path env name) = Some path"
      and "\<not> init_fulfils env \<lparr>ident = constructed s, of_module = name, props = P\<rparr>
                (opts(''cachePath'' \<mapsto> path))"
  shows "fst (initCache env opts s) = Inl InitRejected
       \<and> cache_instance (snd (initCache env opts s))
           = Some \<lparr>ident = constructed s, of_module = name, props = P\<rparr>
       \<and> constructed (snd (initCache env opts s)) = Suc (constructed s)
       \<and> init_calls (snd (initCache env opts s))
           = init_calls s @ [(\<lparr>ident = constructed s, of_module = name, props = P\<rparr>,
                              opts(''cachePath'' \<mapsto> path))]
       \<and> initCache env' opts' (snd (initCache env opts s))
           = (Inr \<lparr>ident = constructed s, of_module = name, props = P\<rparr>,
              snd (initCache env opts s))"
proof -
  note first = initCache_init_rejects [OF assms]
  have stored: "cache_instance (snd (initCache env opts s))
                  = Some \<lparr>ident = constructed s, of_module = name, props = P\<rparr>"
    by (simp add: first)
  from stored have "initCache env' opts' (snd (initCache env opts s))
           = (Inr \<lparr>ident = constructed s, of_module = name, props = P\<rparr>,
              snd (initCache env opts s))"
    by (rule initCache_singleton_set)
  with stored show ?thesis by (simp add: first)
qed

lemma initCache_env_init_fails:
  "initCache env_init_fails Map.empty store0
     = (Inl InitRejected,
        \<lparr>cache_instance = Some \<lparr>ident = 0, of_module = ''cache_fs'',
             props = \<lparr>prop_clustering = True, prop_cleanup = True\<rparr>\<rparr>,
         cache_module_name = Some ''cache_fs'', constructed = 1,
         init_calls = [(\<lparr>ident = 0, of_module = ''cache_fs'',
             props = \<lparr>prop_clustering = True, prop_cleanup = True\<rparr>\<rparr>,
             [''cachePath'' \<mapsto> ''.cache''])]\<rparr>)"
  by (simp add: initCache_def env_init_fails_def env0_def store0_def config_get_def Let_def)

theorem initCache_failed_init_keeps_singleton_witness:
  "cache_instance store0 = None
   \<and> cfg_cache_module env_init_fails = Some ''cache_fs''
   \<and> resolveCacheModule env_init_fails ''cache_fs''
        = Some \<lparr>prop_clustering = True, prop_cleanup = True\<rparr>
   \<and> cfg_cache_path env_init_fails = None
   \<and> cfg_module_cache_path env_init_fails ''cache_fs'' = Some ''.cache''
   \<and> \<not> init_fulfils env_init_fails
          \<lparr>ident = constructed store0, of_module = ''cache_fs'',
           props = \<lparr>prop_clustering = True, prop_cleanup = True\<rparr>\<rparr>
          [''cachePath'' \<mapsto> ''.cache'']
   \<and> fst (initCache env_init_fails Map.empty store0) = Inl InitRejected
   \<and> cache_instance (snd (initCache env_init_fails Map.empty store0))
        = Some \<lparr>ident = 0, of_module = ''cache_fs'',
                props = \<lparr>prop_clustering = True, prop_cleanup = True\<rparr>\<rparr>
   \<and> initCache env0 [''cachePath'' \<mapsto> ''/tmp''] (snd (initCache env_init_fails Map.empty store0))
        = (Inr \<lparr>ident = 0, of_module = ''cache_fs'',
                props = \<lparr>prop_clustering = True, prop_cleanup = True\<rparr>\<rparr>,
           snd (initCache env_init_fails Map.empty store0))"
proof -
  have h: "cache_instance store0 = None"
      "cfg_cache_module env_init_fails = Some ''cache_fs''"
      "resolveCacheModule env_init_fails ''cache_fs''
        = Some \<lparr>prop_clustering = True, prop_cleanup = True\<rparr>"
      "(case cfg_cache_path env_init_fails of Some p \<Rightarrow> Some p
        | None \<Rightarrow> cfg_module_cache_path env_init_fails ''cache_fs'') = Some ''.cache''"
      "\<not> init_fulfils env_init_fails
          \<lparr>ident = constructed store0, of_module = ''cache_fs'',
           props = \<lparr>prop_clustering = True, prop_cleanup = True\<rparr>\<rparr>
          (Map.empty(''cachePath'' \<mapsto> ''.cache''))"
    by (simp_all add: env_init_fails_def env0_def store0_def)
  have c: "cfg_cache_path env_init_fails = None"
      "cfg_module_cache_path env_init_fails ''cache_fs'' = Some ''.cache''"
      "constructed store0 = 0"
    by (simp_all add: env_init_fails_def env0_def store0_def)
  from initCache_failed_init_keeps_singleton
         [OF h, of env0 "[''cachePath'' \<mapsto> ''/tmp'']"] h c
  show ?thesis by simp
qed

text \<open>
  The claim as the specification states it fails on the node whose \<^verbatim>\<open>init\<close> rejects: the
  first call rejects, yet the singleton is set afterwards, and the second call returns it
  with still only one object constructed and one call of \<^verbatim>\<open>init\<close> made.
\<close>

theorem initCache_failed_init_counterexample:
  "fst (initCache env_init_fails Map.empty store0) = Inl InitRejected
   \<and> cache_instance (snd (initCache env_init_fails Map.empty store0)) \<noteq> None
   \<and> fst (initCache env_init_fails Map.empty (snd (initCache env_init_fails Map.empty store0)))
       = Inr \<lparr>ident = 0, of_module = ''cache_fs'',
              props = \<lparr>prop_clustering = True, prop_cleanup = True\<rparr>\<rparr>
   \<and> constructed (snd (initCache env_init_fails Map.empty
                           (snd (initCache env_init_fails Map.empty store0)))) = 1
   \<and> length (init_calls (snd (initCache env_init_fails Map.empty
                           (snd (initCache env_init_fails Map.empty store0))))) = 1"
  by (simp add: initCache_env_init_fails) (simp add: initCache_def)

section \<open>Properties of cleanup: the capability gate\<close>

text \<open>
  Claim C9. When the backend that \<^verbatim>\<open>initCache\<close> hands to \<^verbatim>\<open>cleanup\<close> has its
  \<^verbatim>\<open>cleanup\<close> capability false, then for every \<open>dryRun\<close>, every \<open>daemon\<close> and every
  future of the process, \<^verbatim>\<open>cleanup\<close> does exactly two things after acquiring the backend:
  it logs the error and exits the process with status 1. It subscribes to no event, starts
  no spinner, calls the backend's \<^verbatim>\<open>cleanup\<close> never, and sleeps never.
\<close>

theorem cleanup_unsupported_exits:
  assumes "fst (initCache env Map.empty s) = Inr cache"
      and "\<not> prop_cleanup (props cache)"
  shows "cleanup env dryRun daemon sched s
           = ([Log LOG_ERR ''Configured cache module does not support cleanup script.'', Exit 1],
              snd (initCache env Map.empty s))
         \<and> CacheCleanup d \<notin> set (fst (cleanup env dryRun daemon sched s))
         \<and> Sleep ms \<notin> set (fst (cleanup env dryRun daemon sched s))"
proof -
  from assms(1) obtain s1 where "initCache env Map.empty s = (Inr cache, s1)"
    by (cases "initCache env Map.empty s") auto
  with assms(2) show ?thesis by (simp add: cleanup_def)
qed

lemma initCache_env_ram:
  "initCache env_ram Map.empty store0
     = (Inr \<lparr>ident = 0, of_module = ''cache_ram'',
             props = \<lparr>prop_clustering = False, prop_cleanup = False\<rparr>\<rparr>,
        \<lparr>cache_instance = Some \<lparr>ident = 0, of_module = ''cache_ram'',
             props = \<lparr>prop_clustering = False, prop_cleanup = False\<rparr>\<rparr>,
         cache_module_name = Some ''cache_ram'', constructed = 1,
         init_calls = [(\<lparr>ident = 0, of_module = ''cache_ram'',
             props = \<lparr>prop_clustering = False, prop_cleanup = False\<rparr>\<rparr>,
             [''cachePath'' \<mapsto> ''.cache''])]\<rparr>)"
  by (simp add: initCache_def env_ram_def env0_def store0_def config_get_def Let_def)

theorem cleanup_unsupported_exits_witness:
  "fst (initCache env_ram Map.empty store0)
     = Inr \<lparr>ident = 0, of_module = ''cache_ram'',
            props = \<lparr>prop_clustering = False, prop_cleanup = False\<rparr>\<rparr>
   \<and> \<not> prop_cleanup (props \<lparr>ident = 0, of_module = ''cache_ram'',
            props = \<lparr>prop_clustering = False, prop_cleanup = False\<rparr>\<rparr>)
   \<and> fst (cleanup env_ram False 1000 [Tick False False [], Tick True False []] store0)
       = [Log LOG_ERR ''Configured cache module does not support cleanup script.'', Exit 1]"
  using cleanup_unsupported_exits
          [of env_ram store0 "\<lparr>ident = 0, of_module = ''cache_ram'',
            props = \<lparr>prop_clustering = False, prop_cleanup = False\<rparr>\<rparr>"
            False 1000 "[Tick False False [], Tick True False []]"]
  by (simp add: initCache_env_ram)

lemma initCache_env0:
  "initCache env0 Map.empty store0
     = (Inr \<lparr>ident = 0, of_module = ''cache_fs'',
             props = \<lparr>prop_clustering = True, prop_cleanup = True\<rparr>\<rparr>,
        \<lparr>cache_instance = Some \<lparr>ident = 0, of_module = ''cache_fs'',
             props = \<lparr>prop_clustering = True, prop_cleanup = True\<rparr>\<rparr>,
         cache_module_name = Some ''cache_fs'', constructed = 1,
         init_calls = [(\<lparr>ident = 0, of_module = ''cache_fs'',
             props = \<lparr>prop_clustering = True, prop_cleanup = True\<rparr>\<rparr>,
             [''cachePath'' \<mapsto> ''.cache''])]\<rparr>)"
  by (simp add: initCache_def env0_def store0_def config_get_def Let_def)

lemma cleanup_supported_example:
  "fst (cleanup env0 True 0 [Tick False False [cleanup_search_finish]] store0)
     = [Subscribe ''cleanup_delete_item'', Subscribe ''cleanup_delete_finish'',
        Subscribe ''cleanup_search_progress'', Subscribe ''cleanup_search_finish'',
        SpinnerStart ''Gathering cache files for expiration'', CacheCleanup True, SpinnerStop,
        Log LOG_INFO ''Nothing deleted; run with --delete to remove expired files from the cache.'',
        Resolved]"
  by (simp add: cleanup_def initCache_env0 doCleanup_def doCleanup_begin_def doCleanup_end_def
        spinner_start_def spinner_stop_def on_event_def)
     (simp add: env0_def)

section \<open>Properties of start: the topology\<close>

lemma fork_loop_replicate: "fork_loop i workers = replicate (nat (workers - i)) Fork"
proof (induction i workers rule: fork_loop.induct)
  case (1 i workers)
  show ?case
  proof (cases "i < workers")
    case True
    then have "nat (workers - i) = Suc (nat (workers - (i + 1)))" by simp
    with True "1.IH" show ?thesis by (subst fork_loop.simps) simp
  next
    case False
    then show ?thesis by (subst fork_loop.simps) simp
  qed
qed

lemma initCache_fresh_names_module:
  "cache_instance s = None \<Longrightarrow> initCache env opts s = (Inr cache, s1) \<Longrightarrow>
   cache_module_name s1 = Some (of_module cache)"
  by (auto simp: initCache_def config_get_def Let_def split: option.splits sum.splits if_splits)

lemma start_master_trace:
  assumes "initCache env Map.empty s = (Inr cache, s1)"
      and "getMirrors env = Inr mirror"
      and "isMaster env"
  shows "fst (start env s) =
           snd (plan_workers env s1 cache)
           @ [SetLogger (fst (plan_workers env s1 cache) > 0),
              NewServer (getConfigVal (cfg_port env) (DEFAULT_PORT env)) mirror
                        (getConfigVal (cfg_allow_ipv6 env) False),
              Once SIGINT, Once SIGTERM,
              Log LOG_INFO (''Cache Server version '' @ version env
                            @ ''; Cache module is '' @ module_text s1)]
           @ replicate (nat (fst (plan_workers env s1 cache))) Fork
           @ (if fst (plan_workers env s1 cache) = 0
              then ServerStart
                   # (case server_start_error env of
                        Some m \<Rightarrow> [Log LOG_ERR m, Exit 1]
                      | None \<Rightarrow>
                          [Log LOG_INFO
                             (''Cache Server ready on port ''
                              @ number_text env
                                  (getConfigVal (cfg_port env) (DEFAULT_PORT env))),
                           Resolved])
              else [Resolved])"
  using assms
  by (cases "plan_workers env s1 cache") (simp add: start_def fork_loop_replicate)

lemma forks_append: "forks (xs @ ys) = forks xs + forks ys"
  by (simp add: forks_def)

lemma forks_replicate: "forks (replicate n Fork) = n"
  by (simp add: forks_def)

text \<open>
  Claim C5. In the master process, once the backend is acquired and the mirrors are
  resolved, with \<open>N\<close> the configured number of workers (0 when not configured): if
  \<open>N > 0\<close> and the backend cannot cluster, the worker count becomes 0, the role is
  Standalone, the downgrade is logged at informational level with the module's name, nothing
  is forked and the server is started; if \<open>N = 0\<close> the role is Standalone, nothing is
  forked and the server is started, whatever the capability; if \<open>N > 0\<close> and the backend
  can cluster, the worker count is \<open>N\<close>, the role is Master, exactly \<open>N\<close> workers are
  forked and the server is not started. In a process that had no backend yet, the name
  logged is the name of the acquired backend's module.
\<close>

theorem start_topology:
  assumes "initCache env Map.empty s = (Inr cache, s1)"
      and "getMirrors env = Inr mirror"
      and "isMaster env"
  shows "(getConfigVal (cfg_workers env) 0 > 0 \<and> \<not> prop_clustering (props cache) \<longrightarrow>
            fst (plan_workers env s1 cache) = 0
            \<and> role_of env (fst (plan_workers env s1 cache)) = Standalone
            \<and> hd (fst (start env s))
                = Log LOG_INFO (''Clustering disabled, current cache module '' @ module_text s1
                                @ '' does not support it.'')
            \<and> forks (fst (start env s)) = 0
            \<and> ServerStart \<in> set (fst (start env s)))
       \<and> (getConfigVal (cfg_workers env) 0 = 0 \<longrightarrow>
            fst (plan_workers env s1 cache) = 0
            \<and> role_of env (fst (plan_workers env s1 cache)) = Standalone
            \<and> forks (fst (start env s)) = 0
            \<and> ServerStart \<in> set (fst (start env s)))
       \<and> (getConfigVal (cfg_workers env) 0 > 0 \<and> prop_clustering (props cache) \<longrightarrow>
            fst (plan_workers env s1 cache) = getConfigVal (cfg_workers env) 0
            \<and> role_of env (fst (plan_workers env s1 cache)) = Master
            \<and> forks (fst (start env s)) = nat (getConfigVal (cfg_workers env) 0)
            \<and> ServerStart \<notin> set (fst (start env s)))
       \<and> (cache_instance s = None \<longrightarrow> module_text s1 = of_module cache)"
proof -
  note tr = start_master_trace [OF assms]
  have name: "cache_instance s = None \<longrightarrow> module_text s1 = of_module cache"
    using initCache_fresh_names_module [OF _ assms(1)] by (simp add: module_text_def)
  have down: "getConfigVal (cfg_workers env) 0 > 0 \<and> \<not> prop_clustering (props cache) \<longrightarrow>
            fst (plan_workers env s1 cache) = 0
            \<and> role_of env (fst (plan_workers env s1 cache)) = Standalone
            \<and> hd (fst (start env s))
                = Log LOG_INFO (''Clustering disabled, current cache module '' @ module_text s1
                                @ '' does not support it.'')
            \<and> forks (fst (start env s)) = 0
            \<and> ServerStart \<in> set (fst (start env s))"
  proof
    assume h: "getConfigVal (cfg_workers env) 0 > 0 \<and> \<not> prop_clustering (props cache)"
    then have p: "plan_workers env s1 cache
                   = (0, [Log LOG_INFO (''Clustering disabled, current cache module ''
                                        @ module_text s1 @ '' does not support it.'')])"
      by (simp add: plan_workers_def Let_def)
    show "fst (plan_workers env s1 cache) = 0
            \<and> role_of env (fst (plan_workers env s1 cache)) = Standalone
            \<and> hd (fst (start env s))
                = Log LOG_INFO (''Clustering disabled, current cache module '' @ module_text s1
                                @ '' does not support it.'')
            \<and> forks (fst (start env s)) = 0
            \<and> ServerStart \<in> set (fst (start env s))"
      unfolding tr p using assms(3)
      by (simp add: role_of_def forks_def split: option.splits)
  qed
  have zero: "getConfigVal (cfg_workers env) 0 = 0 \<longrightarrow>
            fst (plan_workers env s1 cache) = 0
            \<and> role_of env (fst (plan_workers env s1 cache)) = Standalone
            \<and> forks (fst (start env s)) = 0
            \<and> ServerStart \<in> set (fst (start env s))"
  proof
    assume h: "getConfigVal (cfg_workers env) 0 = 0"
    then have p: "plan_workers env s1 cache = (0, [])"
      by (simp add: plan_workers_def Let_def)
    show "fst (plan_workers env s1 cache) = 0
            \<and> role_of env (fst (plan_workers env s1 cache)) = Standalone
            \<and> forks (fst (start env s)) = 0
            \<and> ServerStart \<in> set (fst (start env s))"
      unfolding tr p using assms(3)
      by (simp add: role_of_def forks_def split: option.splits)
  qed
  have many: "getConfigVal (cfg_workers env) 0 > 0 \<and> prop_clustering (props cache) \<longrightarrow>
            fst (plan_workers env s1 cache) = getConfigVal (cfg_workers env) 0
            \<and> role_of env (fst (plan_workers env s1 cache)) = Master
            \<and> forks (fst (start env s)) = nat (getConfigVal (cfg_workers env) 0)
            \<and> ServerStart \<notin> set (fst (start env s))"
  proof
    assume h: "getConfigVal (cfg_workers env) 0 > 0 \<and> prop_clustering (props cache)"
    then have p: "plan_workers env s1 cache = (getConfigVal (cfg_workers env) 0, [])"
      by (simp add: plan_workers_def Let_def)
    show "fst (plan_workers env s1 cache) = getConfigVal (cfg_workers env) 0
            \<and> role_of env (fst (plan_workers env s1 cache)) = Master
            \<and> forks (fst (start env s)) = nat (getConfigVal (cfg_workers env) 0)
            \<and> ServerStart \<notin> set (fst (start env s))"
      unfolding tr p using assms(3) h
      by (simp add: role_of_def forks_def)
  qed
  from down zero many name show ?thesis by blast
qed

lemma initCache_env_cluster:
  "initCache env_cluster Map.empty store0
     = (Inr \<lparr>ident = 0, of_module = ''cache_fs'',
             props = \<lparr>prop_clustering = True, prop_cleanup = True\<rparr>\<rparr>,
        \<lparr>cache_instance = Some \<lparr>ident = 0, of_module = ''cache_fs'',
             props = \<lparr>prop_clustering = True, prop_cleanup = True\<rparr>\<rparr>,
         cache_module_name = Some ''cache_fs'', constructed = 1,
         init_calls = [(\<lparr>ident = 0, of_module = ''cache_fs'',
             props = \<lparr>prop_clustering = True, prop_cleanup = True\<rparr>\<rparr>,
             [''cachePath'' \<mapsto> ''.cache''])]\<rparr>)"
  by (simp add: initCache_def env_cluster_def env0_def store0_def config_get_def Let_def)

lemma initCache_env_ram_cluster:
  "initCache env_ram_cluster Map.empty store0
     = (Inr \<lparr>ident = 0, of_module = ''cache_ram'',
             props = \<lparr>prop_clustering = False, prop_cleanup = False\<rparr>\<rparr>,
        \<lparr>cache_instance = Some \<lparr>ident = 0, of_module = ''cache_ram'',
             props = \<lparr>prop_clustering = False, prop_cleanup = False\<rparr>\<rparr>,
         cache_module_name = Some ''cache_ram'', constructed = 1,
         init_calls = [(\<lparr>ident = 0, of_module = ''cache_ram'',
             props = \<lparr>prop_clustering = False, prop_cleanup = False\<rparr>\<rparr>,
             [''cachePath'' \<mapsto> ''.cache''])]\<rparr>)"
  by (simp add: initCache_def env_ram_cluster_def env_ram_def env0_def store0_def
        config_get_def Let_def)

lemma getMirrors_env0:
  "getMirrors env0
     = Inr [\<lparr>host = ''10.0.0.7'', port = 8126\<rparr>, \<lparr>host = ''10.0.0.5'', port = 9000\<rparr>]"
  by (simp add: getMirrors_def config_get_def env0_def parse0_def validate_mirror_def
        is_self_def Promise_all_def rejections_def rejection_at_def fulfilments_def)

lemma getMirrors_env_cluster:
  "getMirrors env_cluster
     = Inr [\<lparr>host = ''10.0.0.7'', port = 8126\<rparr>, \<lparr>host = ''10.0.0.5'', port = 9000\<rparr>]"
  by (simp add: getMirrors_def config_get_def env_cluster_def env0_def parse0_def
        validate_mirror_def is_self_def Promise_all_def rejections_def rejection_at_def
        fulfilments_def)

lemma getMirrors_env_ram_cluster:
  "getMirrors env_ram_cluster
     = Inr [\<lparr>host = ''10.0.0.7'', port = 8126\<rparr>, \<lparr>host = ''10.0.0.5'', port = 9000\<rparr>]"
  by (simp add: getMirrors_def config_get_def env_ram_cluster_def env_ram_def env0_def
        parse0_def validate_mirror_def is_self_def Promise_all_def rejections_def
        rejection_at_def fulfilments_def)

lemma isMaster_examples: "isMaster env0" "isMaster env_cluster" "isMaster env_ram_cluster"
  by (simp_all add: env0_def env_cluster_def env_ram_cluster_def env_ram_def)

theorem start_topology_witness:
  "(getConfigVal (cfg_workers env_cluster) 0 = 3
    \<and> prop_clustering (props \<lparr>ident = 0, of_module = ''cache_fs'',
             props = \<lparr>prop_clustering = True, prop_cleanup = True\<rparr>\<rparr>)
    \<and> role_of env_cluster 3 = Master
    \<and> forks (fst (start env_cluster store0)) = 3
    \<and> ServerStart \<notin> set (fst (start env_cluster store0)))
   \<and> (getConfigVal (cfg_workers env_ram_cluster) 0 = 3
    \<and> \<not> prop_clustering (props \<lparr>ident = 0, of_module = ''cache_ram'',
             props = \<lparr>prop_clustering = False, prop_cleanup = False\<rparr>\<rparr>)
    \<and> role_of env_ram_cluster 0 = Standalone
    \<and> hd (fst (start env_ram_cluster store0))
        = Log LOG_INFO
            ''Clustering disabled, current cache module cache_ram does not support it.''
    \<and> forks (fst (start env_ram_cluster store0)) = 0
    \<and> ServerStart \<in> set (fst (start env_ram_cluster store0)))
   \<and> (getConfigVal (cfg_workers env0) 0 = 0
    \<and> role_of env0 0 = Standalone
    \<and> forks (fst (start env0 store0)) = 0
    \<and> ServerStart \<in> set (fst (start env0 store0)))"
proof -
  have w1: "getConfigVal (cfg_workers env_cluster) 0 = 3"
    by (simp add: getConfigVal_def env_cluster_def)
  have w2: "getConfigVal (cfg_workers env_ram_cluster) 0 = 3"
    by (simp add: getConfigVal_def env_ram_cluster_def)
  have w3: "getConfigVal (cfg_workers env0) 0 = 0"
    by (simp add: getConfigVal_def env0_def)
  show ?thesis
    using start_topology [OF initCache_env_cluster getMirrors_env_cluster isMaster_examples(2)]
          start_topology [OF initCache_env_ram_cluster getMirrors_env_ram_cluster
                             isMaster_examples(3)]
          start_topology [OF initCache_env0 getMirrors_env0 isMaster_examples(1)]
    by (simp add: w1 w2 w3 store0_def module_text_def plan_workers_def)
qed

section \<open>Properties of the signal handlers\<close>

lemma stop_after_shutdown_append:
  assumes "stop_after_shutdown tr" and "stop_after_shutdown blk"
  shows "stop_after_shutdown (tr @ blk)"
  unfolding stop_after_shutdown_def
proof (intro allI impI)
  fix i k
  assume h: "i < length (tr @ blk) \<and> (tr @ blk) ! i = ServerStopCalled k"
  show "\<exists>j<i. (tr @ blk) ! j = CacheShutdownDone k"
  proof (cases "i < length tr")
    case True
    with h have "tr ! i = ServerStopCalled k" by (simp add: nth_append)
    with assms(1) True obtain j where j: "j < i" "tr ! j = CacheShutdownDone k"
      unfolding stop_after_shutdown_def by blast
    with True have "(tr @ blk) ! j = CacheShutdownDone k" by (simp add: nth_append)
    with j(1) show ?thesis by blast
  next
    case False
    with h have "i - length tr < length blk" by auto
    moreover from False h have "blk ! (i - length tr) = ServerStopCalled k"
      by (simp add: nth_append)
    ultimately have "i - length tr < length blk" "blk ! (i - length tr) = ServerStopCalled k"
      by blast+
    with assms(2) obtain j where j: "j < i - length tr" "blk ! j = CacheShutdownDone k"
      unfolding stop_after_shutdown_def by blast
    then have "length tr + j < i" "(tr @ blk) ! (length tr + j) = CacheShutdownDone k"
      by simp_all
    then show ?thesis by blast
  qed
qed

lemma stop_after_shutdown_Nil: "stop_after_shutdown []"
  by (simp add: stop_after_shutdown_def)

lemma stop_after_shutdown_signal:
  "stop_after_shutdown [Log lvl text, CacheShutdownCalled n]"
  by (simp add: stop_after_shutdown_def nth_Cons')

lemma stop_after_shutdown_down:
  "stop_after_shutdown [CacheShutdownDone k, ServerStopCalled k]"
  unfolding stop_after_shutdown_def
proof (intro allI impI)
  fix i k'
  assume "i < length [CacheShutdownDone k, ServerStopCalled k]
          \<and> [CacheShutdownDone k, ServerStopCalled k] ! i = ServerStopCalled k'"
  then have "i = 1" "k' = k" by (simp_all add: nth_Cons' split: if_splits)
  then have "0 < i" "[CacheShutdownDone k, ServerStopCalled k] ! 0 = CacheShutdownDone k'"
    by simp_all
  then show "\<exists>j<i. [CacheShutdownDone k, ServerStopCalled k] ! j = CacheShutdownDone k'"
    by blast
qed

lemma stop_after_shutdown_unhandled: "stop_after_shutdown [Unhandled k]"
  by (auto simp: stop_after_shutdown_def nth_Cons')

lemma stop_after_shutdown_exit: "stop_after_shutdown [ServerStopDone k, Exit c]"
  by (simp add: stop_after_shutdown_def nth_Cons')

lemma step_trace_cases:
  "trace (step ev p) = trace p
   \<or> (\<exists>n. trace (step ev p)
            = trace p @ [Log LOG_INFO ''Shutting down...'', CacheShutdownCalled n])
   \<or> (\<exists>k. trace (step ev p) = trace p @ [CacheShutdownDone k, ServerStopCalled k])
   \<or> (\<exists>k. trace (step ev p) = trace p @ [Unhandled k])
   \<or> (\<exists>k. trace (step ev p) = trace p @ [ServerStopDone k, Exit 0])"
  by (cases ev) (auto simp: step_def split: option.splits stage.splits)

lemma stop_after_shutdown_step:
  assumes "stop_after_shutdown (trace p)"
  shows "stop_after_shutdown (trace (step ev p))"
proof -
  from step_trace_cases [of ev p]
  consider (same) "trace (step ev p) = trace p"
    | (sig) n where "trace (step ev p)
            = trace p @ [Log LOG_INFO ''Shutting down...'', CacheShutdownCalled n]"
    | (down) k where "trace (step ev p) = trace p @ [CacheShutdownDone k, ServerStopCalled k]"
    | (unh) k where "trace (step ev p) = trace p @ [Unhandled k]"
    | (stop) k where "trace (step ev p) = trace p @ [ServerStopDone k, Exit 0]"
    by blast
  then show ?thesis
  proof cases
    case same
    with assms show ?thesis by simp
  next
    case sig
    show ?thesis unfolding sig
      by (rule stop_after_shutdown_append [OF assms stop_after_shutdown_signal])
  next
    case down
    show ?thesis unfolding down
      by (rule stop_after_shutdown_append [OF assms stop_after_shutdown_down])
  next
    case unh
    show ?thesis unfolding unh
      by (rule stop_after_shutdown_append [OF assms stop_after_shutdown_unhandled])
  next
    case stop
    show ?thesis unfolding stop
      by (rule stop_after_shutdown_append [OF assms stop_after_shutdown_exit])
  qed
qed

lemma stop_after_shutdown_run:
  "stop_after_shutdown (trace p) \<Longrightarrow> stop_after_shutdown (trace (run evs p))"
proof (induction evs arbitrary: p)
  case Nil
  then show ?case by simp
next
  case (Cons ev evs)
  from Cons.IH [OF stop_after_shutdown_step [OF Cons.prems]] show ?case by simp
qed

lemma run_single_signal:
  "run [Deliver sig, Settle 0 True, Settle 0 True] started
     = \<lparr>once = removeAll sig [SIGINT, SIGTERM], awaiting = [], invoked = 1,
        trace = [Log LOG_INFO ''Shutting down...'', CacheShutdownCalled 0,
                 CacheShutdownDone 0, ServerStopCalled 0, ServerStopDone 0, Exit 0],
        status = Exited 0\<rparr>"
  by (cases sig) (simp_all add: step_def started_def)

text \<open>
  Claim C6. From the state \<^verbatim>\<open>start\<close> leaves, a first signal (either one) whose two awaited
  promises fulfil produces exactly: the informational notice, the call of the backend's
  shutdown, its completion, the call of the server's stop, its completion, and the exit with
  status 0. And whatever events arrive, in whatever order, a call of the server's stop by a
  handler invocation comes later in the trace than the completion of the backend shutdown
  that invocation awaited.
\<close>

theorem shutdown_order:
  "trace (run [Deliver sig, Settle 0 True, Settle 0 True] started)
     = [Log LOG_INFO ''Shutting down...'', CacheShutdownCalled 0, CacheShutdownDone 0,
        ServerStopCalled 0, ServerStopDone 0, Exit 0]
   \<and> status (run [Deliver sig, Settle 0 True, Settle 0 True] started) = Exited 0
   \<and> stop_after_shutdown (trace (run evs started))
   \<and> (i < length (trace (run evs started))
        \<and> trace (run evs started) ! i = ServerStopCalled k
       \<longrightarrow> (\<exists>j<i. trace (run evs started) ! j = CacheShutdownDone k))"
proof -
  have "stop_after_shutdown (trace started)"
    by (simp add: started_def stop_after_shutdown_Nil)
  then have inv: "stop_after_shutdown (trace (run evs started))"
    by (rule stop_after_shutdown_run)
  then have "i < length (trace (run evs started))
        \<and> trace (run evs started) ! i = ServerStopCalled k
       \<longrightarrow> (\<exists>j<i. trace (run evs started) ! j = CacheShutdownDone k)"
    unfolding stop_after_shutdown_def by blast
  with inv show ?thesis
    unfolding run_single_signal by simp
qed

lemma run_signal_then_backend_done:
  "trace (run [Deliver SIGTERM, Settle 0 True] started)
     = [Log LOG_INFO ''Shutting down...'', CacheShutdownCalled 0, CacheShutdownDone 0,
        ServerStopCalled 0]"
  by (simp add: step_def started_def)

theorem shutdown_order_witness:
  "3 < length (trace (run [Deliver SIGTERM, Settle 0 True] started))
   \<and> trace (run [Deliver SIGTERM, Settle 0 True] started) ! 3 = ServerStopCalled 0
   \<and> trace (run [Deliver SIGTERM, Settle 0 True] started) ! 2 = CacheShutdownDone 0
   \<and> trace (run [Deliver SIGTERM, Settle 0 True, Settle 0 True] started)
     = [Log LOG_INFO ''Shutting down...'', CacheShutdownCalled 0, CacheShutdownDone 0,
        ServerStopCalled 0, ServerStopDone 0, Exit 0]"
proof -
  have h: "3 < length (trace (run [Deliver SIGTERM, Settle 0 True] started))
           \<and> trace (run [Deliver SIGTERM, Settle 0 True] started) ! 3 = ServerStopCalled 0"
    unfolding run_signal_then_backend_done by simp
  have d: "trace (run [Deliver SIGTERM, Settle 0 True] started) ! 2 = CacheShutdownDone 0"
    unfolding run_signal_then_backend_done by simp
  from shutdown_order [of SIGTERM "[Deliver SIGTERM, Settle 0 True]" 3 0] h d
  show ?thesis by blast
qed

text \<open>
  Claim C1 at the input where the code departs from it: SIGINT, then SIGTERM while the
  first handler is still awaiting the backend. Each signal has its own \<^verbatim>\<open>once\<close>
  listener, so the second signal is not ignored: the notice is logged twice and the
  backend's shutdown is called twice, and when the promises fulfil the server's stop is
  called twice too. A second signal of the same kind finds no listener and ends the
  process before the server is stopped.
\<close>

theorem shutdown_twice_on_two_signals:
  "trace (run [Deliver SIGINT, Deliver SIGTERM] started)
     = [Log LOG_INFO ''Shutting down...'', CacheShutdownCalled 0,
        Log LOG_INFO ''Shutting down...'', CacheShutdownCalled 1]
   \<and> trace (run [Deliver SIGINT, Deliver SIGTERM, Settle 0 True, Settle 1 True, Settle 0 True]
               started)
     = [Log LOG_INFO ''Shutting down...'', CacheShutdownCalled 0,
        Log LOG_INFO ''Shutting down...'', CacheShutdownCalled 1,
        CacheShutdownDone 0, ServerStopCalled 0,
        CacheShutdownDone 1, ServerStopCalled 1,
        ServerStopDone 0, Exit 0]
   \<and> status (run [Deliver SIGINT, Deliver SIGINT] started) = Killed SIGINT
   \<and> trace (run [Deliver SIGINT, Deliver SIGINT] started)
     = [Log LOG_INFO ''Shutting down...'', CacheShutdownCalled 0]"
  by (simp add: step_def started_def)

section \<open>Properties of cleanup: the summary percentage\<close>

lemma round_percent:
  assumes "0 < c"
  shows "round (of_nat d / of_nat c * 100 :: rat) = int ((200 * d + c) div (2 * c))"
proof -
  have "(of_nat d / of_nat c * 100 + 1 / 2 :: rat) = of_nat (200 * d + c) / of_nat (2 * c)"
    using assms by (simp add: field_simps)
  then have "round (of_nat d / of_nat c * 100 :: rat)
               = \<lfloor>(of_nat (200 * d + c) / of_nat (2 * c) :: rat)\<rfloor>"
    by (simp add: round_def)
  also have "\<dots> = int ((200 * d + c) div (2 * c))"
    by (rule floor_divide_of_nat_eq)
  finally show ?thesis .
qed

lemma spec_pct_div:
  "0 < cacheSize data \<Longrightarrow>
   spec_pct data = of_nat ((200 * deleteSize data + cacheSize data) div (2 * cacheSize data))"
  unfolding spec_pct_def by (simp only: round_percent) simp

lemma pct_empty_cache: "cacheSize data = 0 \<Longrightarrow> pct data = 0"
  by (simp add: pct_def)

lemma round_to_double_zero: "round_to_double 0 b = (0, 1)"
  by (subst round_to_double.simps) simp

lemma toPrecision2_zero: "toPrecision2 0 b = (0, 1)"
  by (subst toPrecision2.simps) simp

lemma pct_nothing_expired: "deleteSize data = 0 \<Longrightarrow> pct data = 0"
  by (simp add: pct_def precise_number_def precise_def size_quotient_def double_value_def
        round_to_double_zero toPrecision2_zero)

text \<open>A thousandth: 0.001, written ``0.0010'', read back as 0.001, times 100.\<close>

lemma size_quotient_thousandth:
  "size_quotient report_thousandth = (4611686018427388, 4611686018427387904)"
  by (simp add: size_quotient_def report_thousandth_def round_to_double.simps
        round_half_even_def Let_def)

lemma precise_thousandth: "precise report_thousandth = (10, 10000)"
  by (simp add: precise_def size_quotient_thousandth toPrecision2.simps)

lemma precise_number_thousandth:
  "precise_number report_thousandth = (4611686018427388, 4611686018427387904)"
  by (simp add: precise_number_def precise_thousandth round_to_double.simps
        round_half_even_def Let_def)

lemma pct_thousandth: "pct report_thousandth = 3602879701896397 / 36028797018963968"
proof -
  have "0 < cacheSize report_thousandth" by (simp add: report_thousandth_def)
  then show ?thesis
    unfolding pct_def precise_number_thousandth
    by (simp add: double_value_def round_to_double.simps round_half_even_def Let_def)
qed

text \<open>Seven fortieths: the double below 0.175, written ``0.17'', times 100.\<close>

lemma size_quotient_seven_fortieths:
  "size_quotient report_seven_fortieths = (6305039478318694, 36028797018963968)"
  by (simp add: size_quotient_def report_seven_fortieths_def round_to_double.simps
        round_half_even_def Let_def)

lemma precise_seven_fortieths: "precise report_seven_fortieths = (17, 100)"
  by (simp add: precise_def size_quotient_seven_fortieths toPrecision2.simps)

lemma precise_number_seven_fortieths:
  "precise_number report_seven_fortieths = (6124895493223875, 36028797018963968)"
  by (simp add: precise_number_def precise_seven_fortieths round_to_double.simps
        round_half_even_def Let_def)

lemma pct_seven_fortieths: "pct report_seven_fortieths = 17"
proof -
  have "0 < cacheSize report_seven_fortieths" by (simp add: report_seven_fortieths_def)
  then show ?thesis
    unfolding pct_def precise_number_seven_fortieths
    by (simp add: double_value_def round_to_double.simps round_half_even_def Let_def)
qed

text \<open>A seventh: written ``0.14'', whose double times 100 is the double above 14.\<close>

lemma size_quotient_seventh:
  "size_quotient report_seventh = (5146971002709138, 36028797018963968)"
  by (simp add: size_quotient_def report_seventh_def round_to_double.simps
        round_half_even_def Let_def)

lemma precise_seventh: "precise report_seventh = (14, 100)"
  by (simp add: precise_def size_quotient_seventh toPrecision2.simps)

lemma precise_number_seventh:
  "precise_number report_seventh = (5044031582654956, 36028797018963968)"
  by (simp add: precise_number_def precise_seventh round_to_double.simps
        round_half_even_def Let_def)

lemma pct_seventh: "pct report_seventh = 7881299347898369 / 562949953421312"
proof -
  have "0 < cacheSize report_seventh" by (simp add: report_seventh_def)
  then show ?thesis
    unfolding pct_def precise_number_seventh
    by (simp add: double_value_def round_to_double.simps round_half_even_def Let_def)
qed

text \<open>A quarter: 0.25, written ``0.25'', times 100.\<close>

lemma size_quotient_quarter:
  "size_quotient report_quarter = (4503599627370496, 18014398509481984)"
  by (simp add: size_quotient_def report_quarter_def round_to_double.simps
        round_half_even_def Let_def)

lemma precise_quarter: "precise report_quarter = (25, 100)"
  by (simp add: precise_def size_quotient_quarter toPrecision2.simps)

lemma precise_number_quarter:
  "precise_number report_quarter = (4503599627370496, 18014398509481984)"
  by (simp add: precise_number_def precise_quarter round_to_double.simps
        round_half_even_def Let_def)

lemma pct_quarter: "pct report_quarter = 25"
proof -
  have "0 < cacheSize report_quarter" by (simp add: report_quarter_def)
  then show ?thesis
    unfolding pct_def precise_number_quarter
    by (simp add: double_value_def round_to_double.simps round_half_even_def Let_def)
qed

lemma pct_empty: "pct report_empty = 0"
  by (simp add: pct_empty_cache report_empty_def)

lemma spec_pct_examples:
  "spec_pct report_thousandth = 0" "spec_pct report_seven_fortieths = 18"
  "spec_pct report_seventh = 14" "spec_pct report_quarter = 25" "spec_pct report_empty = 0"
  by (simp_all add: spec_pct_div report_thousandth_def report_seven_fortieths_def
        report_seventh_def report_quarter_def)
     (simp add: spec_pct_def report_empty_def)

text \<open>
  Claim C3 at the inputs where the code departs from it. The code rounds the quotient to
  two significant digits and multiplies by 100 in double arithmetic; it does not round the
  percentage to a whole number. With a thousandth of the cache expired it reports the
  double that prints as 0.1 where the claim says 0; with seven fortieths it reports 17
  where the claim says 18, the double nearest to 0.175 lying below it; with a seventh it
  reports the double that prints as 14.000000000000002 where the claim says 14. The two
  instances the claim names hold: an empty cache gives 0, and \<open>cacheSize = 1000\<close> with
  \<open>deleteSize = 250\<close> gives 25.
\<close>

theorem pct_not_whole_percent:
  "pct report_thousandth = 3602879701896397 / 36028797018963968
   \<and> spec_pct report_thousandth = 0
   \<and> pct report_seven_fortieths = 17
   \<and> spec_pct report_seven_fortieths = 18
   \<and> pct report_seventh = 7881299347898369 / 562949953421312
   \<and> spec_pct report_seventh = 14
   \<and> pct report_quarter = 25
   \<and> spec_pct report_quarter = 25
   \<and> pct report_empty = 0
   \<and> spec_pct report_empty = 0"
  by (simp add: pct_thousandth pct_seven_fortieths pct_seventh pct_quarter pct_empty
        spec_pct_examples)

section \<open>Properties of cleanup: the daemon loop\<close>

lemma sleeps_append: "sleeps (xs @ ys) = sleeps xs @ sleeps ys"
  by (induction xs rule: sleeps.induct) simp_all

lemma passes_append: "passes (xs @ ys) = passes xs + passes ys"
  by (induction xs rule: passes.induct) simp_all

lemma on_event_quiet: "sleeps (on_event env sp ev) = [] \<and> passes (on_event env sp ev) = 0"
  by (cases ev; cases sp)
     (simp_all add: on_event_def spinner_text_def spinner_stop_def)

lemma on_events_quiet:
  "sleeps (concat (map (on_event env sp) evs)) = []
   \<and> passes (concat (map (on_event env sp) evs)) = 0"
  by (induction evs) (simp_all add: sleeps_append passes_append on_event_quiet)

lemma doCleanup_end_quiet: "sleeps (doCleanup_end dryRun) = [] \<and> passes (doCleanup_end dryRun) = 0"
  by (simp add: doCleanup_end_def)

lemma doCleanup_begin_reads:
  "sleeps (doCleanup_begin sp dryRun) = [] \<and> passes (doCleanup_begin sp dryRun) = 1"
  by (cases sp) (simp_all add: doCleanup_begin_def spinner_start_def)

lemma while_loop_finished: "while_loop env sp dryRun daemon interval True sched = [Resolved]"
  by (simp add: while_loop.simps)

lemma for_loop_finished:
  "for_loop env sp dryRun daemon interval i True (u # post)
     = (if i < daemon then [Sleep interval, Resolved] else [Resolved])"
  by (simp add: for_loop.simps while_loop_finished)

lemma winds_down_Resolved: "winds_down [Resolved]"
  by (simp add: winds_down_def)

lemma winds_down_slice: "winds_down [Sleep ms, Resolved]"
  by (simp add: winds_down_def)

lemma winds_down_after_quiet:
  "sleeps q = [] \<and> passes q = 0 \<Longrightarrow> winds_down r \<Longrightarrow> winds_down (q @ r)"
  by (simp add: winds_down_def sleeps_append passes_append)

lemma while_loop_signalled:
  assumes "signalled t" and "\<not> rejects t" and "post \<noteq> []"
  shows "\<exists>rest. while_loop env sp dryRun daemon interval False (t # post)
                  = while_loop env sp dryRun daemon interval False [] @ rest
                \<and> winds_down rest"
proof -
  from assms(3) obtain u post' where post: "post = u # post'" by (cases post) auto
  let ?tail = "for_loop env sp dryRun daemon interval 0 True post"
  let ?rest = "concat (map (on_event env sp) (emitted t)) @ doCleanup_end dryRun @ ?tail"
  have "winds_down ?tail"
    unfolding post for_loop_finished by (simp add: winds_down_Resolved winds_down_slice)
  then have "winds_down (doCleanup_end dryRun @ ?tail)"
    by (rule winds_down_after_quiet [OF doCleanup_end_quiet])
  then have "winds_down ?rest"
    by (rule winds_down_after_quiet [OF on_events_quiet])
  moreover have "while_loop env sp dryRun daemon interval False (t # post)
                  = while_loop env sp dryRun daemon interval False [] @ ?rest"
    using assms(1,2) by (simp add: while_loop.simps)
  ultimately show ?thesis by blast
qed

lemma for_loop_signalled:
  assumes "signalled t" and "\<not> rejects t" and "post \<noteq> []"
  shows "\<exists>rest. for_loop env sp dryRun daemon interval i False (t # post)
                  = for_loop env sp dryRun daemon interval i False [] @ rest
                \<and> winds_down rest"
proof (cases "i < daemon")
  case True
  then have "for_loop env sp dryRun daemon interval i False (t # post)
               = for_loop env sp dryRun daemon interval i False [] @ [Resolved]"
    using assms(1) by (simp add: for_loop.simps while_loop_finished)
  with winds_down_Resolved show ?thesis by blast
next
  case False
  then have "for_loop env sp dryRun daemon interval i False (t # post)
               = while_loop env sp dryRun daemon interval False (t # post)"
       "for_loop env sp dryRun daemon interval i False []
               = while_loop env sp dryRun daemon interval False []"
    by (simp_all add: for_loop.simps)
  with while_loop_signalled [OF assms] show ?thesis by simp
qed

lemma loops_cancel:
  assumes "signalled t" and "\<not> rejects t" and "post \<noteq> []"
  shows "\<forall>x \<in> set pre. \<not> signalled x \<and> \<not> rejects x \<Longrightarrow>
         (\<exists>rest. while_loop env sp dryRun daemon interval False (pre @ t # post)
                  = while_loop env sp dryRun daemon interval False pre @ rest
                \<and> winds_down rest)
         \<and> (\<forall>i. \<exists>rest. for_loop env sp dryRun daemon interval i False (pre @ t # post)
                  = for_loop env sp dryRun daemon interval i False pre @ rest
                \<and> winds_down rest)"
proof (induction pre)
  case Nil
  show ?case
    using while_loop_signalled [OF assms] for_loop_signalled [OF assms] by simp
next
  case (Cons x pre)
  then have x: "\<not> signalled x" "\<not> rejects x"
    and ih_for: "\<And>i. \<exists>rest. for_loop env sp dryRun daemon interval i False (pre @ t # post)
                  = for_loop env sp dryRun daemon interval i False pre @ rest
                \<and> winds_down rest"
    by simp_all
  have w: "\<exists>rest. while_loop env sp dryRun daemon interval False ((x # pre) @ t # post)
                  = while_loop env sp dryRun daemon interval False (x # pre) @ rest
                \<and> winds_down rest"
  proof -
    from ih_for [of 0] obtain rest where
      rest: "for_loop env sp dryRun daemon interval 0 False (pre @ t # post)
               = for_loop env sp dryRun daemon interval 0 False pre @ rest" "winds_down rest"
      by blast
    have "while_loop env sp dryRun daemon interval False ((x # pre) @ t # post)
            = while_loop env sp dryRun daemon interval False (x # pre) @ rest"
      using x rest(1) by (simp add: while_loop.simps)
    with rest(2) show ?thesis by blast
  qed
  have f: "\<exists>rest. for_loop env sp dryRun daemon interval i False ((x # pre) @ t # post)
                  = for_loop env sp dryRun daemon interval i False (x # pre) @ rest
                \<and> winds_down rest" for i
  proof (cases "i < daemon")
    case True
    from ih_for [of "i + interval"] obtain rest where
      rest: "for_loop env sp dryRun daemon interval (i + interval) False (pre @ t # post)
               = for_loop env sp dryRun daemon interval (i + interval) False pre @ rest"
            "winds_down rest"
      by blast
    have "for_loop env sp dryRun daemon interval i False ((x # pre) @ t # post)
            = for_loop env sp dryRun daemon interval i False (x # pre) @ rest"
      using True x rest(1) by (simp add: for_loop.simps)
    with rest(2) show ?thesis by blast
  next
    case False
    then have "for_loop env sp dryRun daemon interval i False ((x # pre) @ t # post)
               = while_loop env sp dryRun daemon interval False ((x # pre) @ t # post)"
       "for_loop env sp dryRun daemon interval i False (x # pre)
               = while_loop env sp dryRun daemon interval False (x # pre)"
      by (simp_all add: for_loop.simps)
    with w show ?thesis by simp
  qed
  from w f show ?case by blast
qed

lemma while_loop_slices_step:
  assumes "\<And>i finished. \<forall>ms \<in> set (sleeps (for_loop env sp dryRun daemon interval i finished rest)).
                ms = interval"
  shows "\<forall>ms \<in> set (sleeps (while_loop env sp dryRun daemon interval finished (t # rest))).
           ms = interval"
proof (cases "finished \<or> rejects t")
  case True
  then show ?thesis
    by (auto simp: while_loop.simps sleeps_append on_events_quiet doCleanup_begin_reads)
next
  case False
  then have "sleeps (while_loop env sp dryRun daemon interval finished (t # rest))
               = sleeps (for_loop env sp dryRun daemon interval 0 (finished \<or> signalled t) rest)"
    by (simp add: while_loop.simps sleeps_append on_events_quiet doCleanup_begin_reads
          doCleanup_end_quiet)
  with assms show ?thesis by simp
qed

lemma while_loop_slices_Nil:
  "sleeps (while_loop env sp dryRun daemon interval finished []) = []"
  by (simp add: while_loop.simps doCleanup_begin_reads)

lemma loops_slices:
  "(\<forall>finished. \<forall>ms \<in> set (sleeps (while_loop env sp dryRun daemon interval finished sched)).
       ms = interval)
   \<and> (\<forall>i finished. \<forall>ms \<in> set (sleeps (for_loop env sp dryRun daemon interval i finished sched)).
         ms = interval)"
proof (induction sched)
  case Nil
  have "\<forall>ms \<in> set (sleeps (for_loop env sp dryRun daemon interval i finished [])). ms = interval"
    for i finished
    by (cases "i < daemon") (simp_all add: for_loop.simps while_loop_slices_Nil)
  then show ?case by (simp add: while_loop_slices_Nil)
next
  case (Cons t rest)
  then have ih_for: "\<And>i finished.
      \<forall>ms \<in> set (sleeps (for_loop env sp dryRun daemon interval i finished rest)). ms = interval"
    and ih_while: "\<And>finished.
      \<forall>ms \<in> set (sleeps (while_loop env sp dryRun daemon interval finished rest)). ms = interval"
    by simp_all
  have w: "\<forall>ms \<in> set (sleeps (while_loop env sp dryRun daemon interval finished (t # rest))).
             ms = interval" for finished
    by (rule while_loop_slices_step [OF ih_for])
  have f: "\<forall>ms \<in> set (sleeps (for_loop env sp dryRun daemon interval i finished (t # rest))).
             ms = interval" for i finished
  proof (cases "i < daemon")
    case True
    show ?thesis
    proof (cases "finished \<or> signalled t")
      case True
      with \<open>i < daemon\<close> ih_while [of True] show ?thesis
        by (simp add: for_loop.simps)
    next
      case False
      with \<open>i < daemon\<close> ih_for [of "i + interval" False] show ?thesis
        by (simp add: for_loop.simps)
    qed
  next
    case False
    with w [of finished] show ?thesis by (simp add: for_loop.simps)
  qed
  from w f show ?case by blast
qed

text \<open>
  Claim C8. In the daemon loop every sleep is one timer of \<open>min 250 daemon\<close> milliseconds,
  so at most 250. And take any future in which the awaits complete quietly (no signal, no
  failed pass) up to one during which a termination signal arrives, with at least one more
  \<^verbatim>\<open>await\<close> able to complete after it: from the \<^verbatim>\<open>await\<close> that was pending when the
  signal arrived, the loop starts no pass, takes at most one sleep slice, and returns.
\<close>

theorem daemon_cancelled_within_a_slice:
  assumes "\<forall>x \<in> set pre. \<not> signalled x \<and> \<not> rejects x"
      and "signalled t" and "\<not> rejects t" and "post \<noteq> []"
  shows "(\<forall>ms \<in> set (sleeps (doCleanupInterval env sp dryRun daemon sched)).
            ms = min 250 daemon \<and> ms \<le> 250)
       \<and> (\<exists>rest. doCleanupInterval env sp dryRun daemon (pre @ t # post)
                    = doCleanupInterval env sp dryRun daemon pre @ rest
                  \<and> passes rest = 0 \<and> length (sleeps rest) \<le> 1
                  \<and> rest \<noteq> [] \<and> last rest = Resolved)"
proof
  from loops_slices [of env sp dryRun daemon "min 250 daemon" sched]
  have "\<forall>ms \<in> set (sleeps (while_loop env sp dryRun daemon (min 250 daemon) False sched)).
          ms = min 250 daemon"
    by blast
  then have "\<forall>ms \<in> set (sleeps (doCleanupInterval env sp dryRun daemon sched)).
          ms = min 250 daemon"
    by (simp add: doCleanupInterval_def)
  then show "\<forall>ms \<in> set (sleeps (doCleanupInterval env sp dryRun daemon sched)).
            ms = min 250 daemon \<and> ms \<le> 250"
    by auto
next
  from loops_cancel [OF assms(2,3,4) assms(1), of env sp dryRun daemon "min 250 daemon"]
  obtain rest where
    "while_loop env sp dryRun daemon (min 250 daemon) False (pre @ t # post)
       = while_loop env sp dryRun daemon (min 250 daemon) False pre @ rest" "winds_down rest"
    by blast
  then have "doCleanupInterval env sp dryRun daemon (pre @ t # post)
                    = doCleanupInterval env sp dryRun daemon pre @ rest
                  \<and> passes rest = 0 \<and> length (sleeps rest) \<le> 1
                  \<and> rest \<noteq> [] \<and> last rest = Resolved"
    by (simp add: doCleanupInterval_def winds_down_def)
  then show "\<exists>rest. doCleanupInterval env sp dryRun daemon (pre @ t # post)
                    = doCleanupInterval env sp dryRun daemon pre @ rest
                  \<and> passes rest = 0 \<and> length (sleeps rest) \<le> 1
                  \<and> rest \<noteq> [] \<and> last rest = Resolved"
    by blast
qed

lemma daemon_example:
  "doCleanupInterval env0 Ora False 1000 [quiet_tick, quiet_tick, signal_tick, quiet_tick]
     = [On SIGINT, On SIGTERM,
        SpinnerStart ''Gathering cache files for expiration'', CacheCleanup False,
        Sleep 250, Sleep 250, Resolved]"
  by (simp add: doCleanupInterval_def while_loop.simps for_loop.simps doCleanup_begin_def
        doCleanup_end_def spinner_start_def quiet_tick_def signal_tick_def)

lemma daemon_example_pending:
  "doCleanupInterval env0 Ora False 1000 [quiet_tick, quiet_tick]
     = [On SIGINT, On SIGTERM,
        SpinnerStart ''Gathering cache files for expiration'', CacheCleanup False,
        Sleep 250, Sleep 250]"
  by (simp add: doCleanupInterval_def while_loop.simps for_loop.simps doCleanup_begin_def
        doCleanup_end_def spinner_start_def quiet_tick_def signal_tick_def)

theorem daemon_cancelled_within_a_slice_witness:
  "\<not> signalled quiet_tick \<and> \<not> rejects quiet_tick
   \<and> signalled signal_tick \<and> \<not> rejects signal_tick \<and> [quiet_tick] \<noteq> []
   \<and> sleeps (doCleanupInterval env0 Ora False 1000
                [quiet_tick, quiet_tick, signal_tick, quiet_tick]) = [250, 250]
   \<and> doCleanupInterval env0 Ora False 1000 [quiet_tick, quiet_tick, signal_tick, quiet_tick]
       = doCleanupInterval env0 Ora False 1000 [quiet_tick, quiet_tick] @ [Resolved]"
proof -
  have h: "\<forall>x \<in> set [quiet_tick, quiet_tick]. \<not> signalled x \<and> \<not> rejects x"
      "signalled signal_tick" "\<not> rejects signal_tick" "[quiet_tick] \<noteq> []"
    by (simp_all add: quiet_tick_def signal_tick_def)
  from daemon_cancelled_within_a_slice
         [OF h, of env0 Ora False 1000
            "[quiet_tick, quiet_tick, signal_tick, quiet_tick]"] h
  show ?thesis
    unfolding daemon_example daemon_example_pending by simp
qed

end
